theory Spec2Isabelle
  imports Main "HOL-Library.Sublist" "HOL-Library.Char_ord" "HOL-Library.List_Lexorder"
begin

section \<open>The process and its world\<close>

text \<open>
  The program is \<^verbatim>\<open>src/bin/cli.js\<close>, the project initializer. Everything it does
  beyond computing values is an effect on the world outside: the file system, the working
  directory of the process, the console, and the child processes it spawns. The model
  threads one record through every function and returns it updated.

  An absolute path is the list of its components (POSIX): \<^verbatim>\<open>/tmp/app\<close> is
  \<open>[''tmp'', ''app'']\<close> and \<^verbatim>\<open>/\<close> is \<open>[]\<close>. The file system is an association list
  from the paths that exist to what is there, in the order in which \<^verbatim>\<open>readdir\<close>
  lists them. \<open>File\<close> stands for everything \<^verbatim>\<open>lstat\<close> does not call a directory.
  The text that \<^verbatim>\<open>chalk\<close> wraps in colour codes is modelled without them.
\<close>

type_synonym path = "string list"

datatype kind = File | Directory

type_synonym filesystem = "(path \<times> kind) list"

datatype js_error =
    ENOENT path
  | ENOTDIR path
  | EEXIST path
  | EISDIR path
  | TypeError
  | ReferenceError string

text \<open>What a promise is rejected with: the object \<^verbatim>\<open>{command: ...}\<close> that
  \<^verbatim>\<open>install\<close> builds, or an error that was thrown.\<close>

datatype reason = Command string | Error js_error

datatype 'a promise = Resolved 'a | Rejected reason

datatype "stream" = Stdout | Stderr

datatype stdio = Inherit | Pipe

record manifest =
  name :: string
  version :: string
  is_private :: bool

datatype event =
    Console "stream" string
  | ConsoleValue "stream" reason
  | MkDir path
  | WriteFile path manifest
  | Remove path
  | ChDir path
  | Spawn string "string list" stdio

record world =
  files :: filesystem
  cwd :: path
  trace :: "event list"

text \<open>How a function ends: it returns, it calls \<^verbatim>\<open>process.exit(code)\<close>, or it
  throws.\<close>

datatype 'a outcome = Returned 'a | Exited int | Thrown js_error

definition nl :: string where
  "nl = [CHR 0x0A]"

definition dquote :: string where
  "dquote = [CHR 0x22]"

definition backslash :: string where
  "backslash = [CHR 0x5C]"

subsection \<open>Console\<close>

definition emit :: "event \<Rightarrow> world \<Rightarrow> world" where
  "emit e s = s\<lparr>trace := trace s @ [e]\<rparr>"

definition console_log :: "string \<Rightarrow> world \<Rightarrow> world" where
  "console_log msg s = emit (Console Stdout msg) s"

definition console_error :: "string \<Rightarrow> world \<Rightarrow> world" where
  "console_error msg s = emit (Console Stderr msg) s"

subsection \<open>Paths (\<^verbatim>\<open>path\<close>, POSIX)\<close>

text \<open>\<^verbatim>\<open>str.split(sep)\<close> for a separator of one character; \<open>acc\<close> holds the
  current piece, reversed.\<close>

fun split_on :: "char \<Rightarrow> string \<Rightarrow> string \<Rightarrow> string list" where
  "split_on sep acc [] = [rev acc]"
| "split_on sep acc (c # cs) =
     (if c = sep then rev acc # split_on sep [] cs else split_on sep (c # acc) cs)"

text \<open>One step of the normalisation that \<^verbatim>\<open>path.resolve\<close> performs: empty segments
  and \<^verbatim>\<open>.\<close> are dropped, \<^verbatim>\<open>..\<close> goes up and stays at the root.\<close>

definition push_segment :: "path \<Rightarrow> string \<Rightarrow> path" where
  "push_segment p seg =
     (if seg = [] \<or> seg = ''.'' then p
      else if seg = ''..'' then butlast p
      else p @ [seg])"

text \<open>\<^verbatim>\<open>path.resolve(name)\<close> in a process whose working directory is \<open>d\<close>.\<close>

definition resolve :: "path \<Rightarrow> string \<Rightarrow> path" where
  "resolve d nm =
     foldl push_segment (if prefix ''/'' nm then [] else d) (split_on CHR ''/'' [] nm)"

text \<open>\<^verbatim>\<open>path.resolve(root, '..')\<close> for an absolute, normalised \<open>root\<close>.\<close>

definition parent :: "path \<Rightarrow> path" where
  "parent p = butlast p"

text \<open>\<^verbatim>\<open>path.basename(root)\<close>; the root directory has the empty base name.\<close>

definition basename :: "path \<Rightarrow> string" where
  "basename p = (if p = [] then [] else last p)"

text \<open>\<^verbatim>\<open>path.join(root, file)\<close> for an entry name \<open>file\<close>.\<close>

definition join_path :: "path \<Rightarrow> string \<Rightarrow> path" where
  "join_path p file = p @ [file]"

text \<open>The string a path is printed as, and that \<^verbatim>\<open>process.cwd()\<close> returns.\<close>

definition path_string :: "path \<Rightarrow> string" where
  "path_string p = (if p = [] then ''/'' else concat (map (\<lambda>c. ''/'' @ c) p))"

subsection \<open>File system (\<^verbatim>\<open>fs-extra\<close>)\<close>

definition is_dir :: "filesystem \<Rightarrow> path \<Rightarrow> bool" where
  "is_dir fs p = (map_of fs p = Some Directory)"

text \<open>The names of the entries directly inside \<open>p\<close>.\<close>

definition children :: "filesystem \<Rightarrow> path \<Rightarrow> string list" where
  "children fs p = map (\<lambda>e. last (fst e)) (filter (\<lambda>e. fst e \<noteq> [] \<and> butlast (fst e) = p) fs)"

definition readdirSync :: "path \<Rightarrow> world \<Rightarrow> js_error + string list" where
  "readdirSync p s =
     (case map_of (files s) p of
        None \<Rightarrow> Inl (ENOENT p)
      | Some File \<Rightarrow> Inl (ENOTDIR p)
      | Some Directory \<Rightarrow> Inr (children (files s) p))"

definition lstatSync :: "path \<Rightarrow> world \<Rightarrow> js_error + kind" where
  "lstatSync p s =
     (case map_of (files s) p of None \<Rightarrow> Inl (ENOENT p) | Some k \<Rightarrow> Inr k)"

text \<open>\<^verbatim>\<open>fs.removeSync\<close> removes the path and everything below it, and does nothing when
  the path does not exist.\<close>

definition removeSync :: "path \<Rightarrow> world \<Rightarrow> world" where
  "removeSync p s =
     emit (Remove p) (s\<lparr>files := filter (\<lambda>e. \<not> prefix p (fst e)) (files s)\<rparr>)"

text \<open>\<^verbatim>\<open>fs.ensureDirSync\<close> creates the directory and the missing directories above it.
  It throws when a path on the way is not a directory: \<^verbatim>\<open>ENOTDIR\<close> for a file above
  the directory, \<^verbatim>\<open>EEXIST\<close> for a file in the place of the directory itself.\<close>

fun mkdirs :: "path list \<Rightarrow> world \<Rightarrow> js_error + world" where
  "mkdirs [] s = Inr s"
| "mkdirs (q # qs) s =
     (case map_of (files s) q of
        Some Directory \<Rightarrow> mkdirs qs s
      | Some File \<Rightarrow> Inl (if qs = [] then EEXIST q else ENOTDIR q)
      | None \<Rightarrow> mkdirs qs (emit (MkDir q) (s\<lparr>files := files s @ [(q, Directory)]\<rparr>)))"

definition ensureDirSync :: "path \<Rightarrow> world \<Rightarrow> js_error + world" where
  "ensureDirSync p s = mkdirs (prefixes p) s"

text \<open>\<^verbatim>\<open>fs.writeFileSync\<close> of the manifest.\<close>

definition writeFileSync :: "path \<Rightarrow> manifest \<Rightarrow> world \<Rightarrow> js_error + world" where
  "writeFileSync p m s =
     (case map_of (files s) p of
        Some Directory \<Rightarrow> Inl (EISDIR p)
      | Some File \<Rightarrow> Inr (emit (WriteFile p m) s)
      | None \<Rightarrow>
          if is_dir (files s) (parent p)
          then Inr (emit (WriteFile p m) (s\<lparr>files := files s @ [(p, File)]\<rparr>))
          else Inl (ENOENT p))"

text \<open>\<^verbatim>\<open>process.chdir\<close>.\<close>

definition chdir :: "path \<Rightarrow> world \<Rightarrow> js_error + world" where
  "chdir p s =
     (if is_dir (files s) p then Inr (emit (ChDir p) (s\<lparr>cwd := p\<rparr>)) else Inl (ENOENT p))"

section \<open>The directory-safety scan\<close>

definition validFiles :: "string list" where
  "validFiles =
     [''.DS_Store'', ''.git'', ''.gitattributes'', ''.gitignore'', ''.gitlab-ci.yml'',
      ''.hg'', ''.hgcheck'', ''.hgignore'', ''.idea'', ''.npmignore'', ''.travis.yml'',
      ''docs'', ''LICENSE'', ''README.md'', ''mkdocs.yml'', ''Thumbs.db'']"

definition errorLogFilePatterns :: "string list" where
  "errorLogFilePatterns = [''npm-debug.log'', ''yarn-error.log'', ''yarn-debug.log'']"

text \<open>\<^verbatim>\<open>errorLogFilePatterns.some(pattern => file.startsWith(pattern))\<close>\<close>

definition isErrorLog :: "string \<Rightarrow> bool" where
  "isErrorLog file = list_ex (\<lambda>pattern. prefix pattern file) errorLogFilePatterns"

text \<open>\<^verbatim>\<open>/\.iml$/.test(file)\<close>: without the multiline flag, \<^verbatim>\<open>$\<close> is the end of
  the string.\<close>

definition isIml :: "string \<Rightarrow> bool" where
  "isIml file = suffix ''.iml'' file"

text \<open>The three filters applied to the listing, in the order of the source.\<close>

definition conflicts_of :: "string list \<Rightarrow> string list" where
  "conflicts_of listing =
     filter (\<lambda>file. \<not> isErrorLog file)
       (filter (\<lambda>file. \<not> isIml file)
         (filter (\<lambda>file. file \<notin> set validFiles) listing))"

text \<open>The body of the loop over the conflicts: a directory is printed with a slash, a
  file, and an entry whose \<^verbatim>\<open>lstat\<close> throws, without.\<close>

definition print_conflict :: "path \<Rightarrow> string \<Rightarrow> world \<Rightarrow> world" where
  "print_conflict root file s =
     (case lstatSync (join_path root file) s of
        Inr stats \<Rightarrow>
          if stats = Directory then console_log (''  '' @ file @ ''/'') s
          else console_log (''  '' @ file) s
      | Inl e \<Rightarrow> console_log (''  '' @ file) s)"

text \<open>The body of the loop that removes the logs of an earlier installation.\<close>

definition remove_if_error_log :: "path \<Rightarrow> string \<Rightarrow> world \<Rightarrow> world" where
  "remove_if_error_log root file s =
     (if isErrorLog file then removeSync (join_path root file) s else s)"

definition isSafeToCreateProjectIn :: "path \<Rightarrow> string \<Rightarrow> world \<Rightarrow> bool outcome \<times> world" where
  "isSafeToCreateProjectIn root nm s =
     (case readdirSync root s of
        Inl e \<Rightarrow> (Thrown e, s)
      | Inr listing \<Rightarrow>
          let conflicts = conflicts_of listing in
          if length conflicts > 0 then
            let s1 = console_log (''The directory '' @ nm @ '' contains files that could conflict:'') s;
                s2 = console_log [] s1;
                s3 = fold (print_conflict root) conflicts s2;
                s4 = console_log [] s3;
                s5 = console_log
                  ''Either try using a new directory name, or remove the files listed above.'' s4
            in (Returned False, s5)
          else
            (case readdirSync root s of
               Inl e \<Rightarrow> (Thrown e, s)
             | Inr again \<Rightarrow> (Returned True, fold (remove_if_error_log root) again s)))"

section \<open>Name validation\<close>

text \<open>
  \<^verbatim>\<open>validateProjectName\<close> is the package \<^verbatim>\<open>validate-npm-package-name\<close>, which
  is not part of this repository: the model takes it as a parameter. Its result has
  the flag the source reads and the two optional lists of messages.
\<close>

record validation_result =
  validForNewPackages :: bool
  errors :: "string list option"
  warnings :: "string list option"

text \<open>\<^verbatim>\<open>xs || []\<close>\<close>

definition or_empty :: "string list option \<Rightarrow> string list" where
  "or_empty xs = (case xs of None \<Rightarrow> [] | Some ys \<Rightarrow> ys)"

text \<open>\<^verbatim>\<open>xs.join(sep)\<close>\<close>

fun join :: "string \<Rightarrow> string list \<Rightarrow> string" where
  "join sep [] = []"
| "join sep [x] = x"
| "join sep (x # y # ys) = x @ sep @ join sep (y # ys)"

text \<open>\<^verbatim>\<open>['express', 'node-fetch'].sort()\<close>: the default order of \<^verbatim>\<open>sort\<close> on
  strings is the lexicographic order of their code units.\<close>

definition dependencies :: "string list" where
  "dependencies = sort [''express'', ''node-fetch'']"

definition naming_restrictions_message :: "string \<Rightarrow> string" where
  "naming_restrictions_message appName =
     ''Cannot create a project named '' @ dquote @ appName @ dquote @
     '' because of npm naming restrictions:'' @ nl"

definition choose_different_message :: string where
  "choose_different_message = nl @ ''Please choose a different project name.''"

definition reserved_name_message :: "string \<Rightarrow> string" where
  "reserved_name_message appName =
     ''Cannot create a project named '' @ dquote @ appName @ dquote @
     '' because a dependency with the same name exists.'' @ nl @
     ''Due to the way npm works, the following names are not allowed:'' @ nl @ nl @
     join nl (map (\<lambda>depName. ''  '' @ depName) dependencies) @
     nl @ nl @ ''Please choose a different project name.''"

definition checkAppName ::
  "(string \<Rightarrow> validation_result) \<Rightarrow> string \<Rightarrow> world \<Rightarrow> unit outcome \<times> world" where
  "checkAppName validateProjectName appName s =
     (let validationResult = validateProjectName appName in
      if \<not> validForNewPackages validationResult then
        let s1 = console_error (naming_restrictions_message appName) s;
            s2 = fold (\<lambda>error. console_error (''  * '' @ error))
                   (or_empty (errors validationResult) @ or_empty (warnings validationResult)) s1;
            s3 = console_error choose_different_message s2
        in (Exited 1, s3)
      else if appName \<in> set dependencies then
        (Exited 1, console_error (reserved_name_message appName) s)
      else (Returned (), s))"

section \<open>Installation and rollback\<close>

text \<open>
  The child process is outside the program: \<open>close_code\<close> gives, for the arguments the
  package manager is started with, the code its \<^verbatim>\<open>close\<close> event delivers, \<open>None\<close>
  for \<^verbatim>\<open>null\<close> (the child was ended by a signal). The executor of the promise runs at
  once, so the process is spawned when \<^verbatim>\<open>install\<close> is called.
\<close>

definition install_args :: "string list \<Rightarrow> string list" where
  "install_args deps =
     [''install'', ''--no-audit'', ''--save'', ''--save-exact'', ''--loglevel'', ''error''] @ deps"

definition install ::
  "(string list \<Rightarrow> int option) \<Rightarrow> string list \<Rightarrow> world \<Rightarrow> unit promise \<times> world" where
  "install close_code deps s =
     (let command = ''npm'';
          args = install_args deps;
          s1 = emit (Spawn command args Inherit) s;
          code = close_code args
      in if code \<noteq> Some 0
         then (Rejected (Command (command @ '' '' @ join '' '' args)), s1)
         else (Resolved (), s1))"

text \<open>
  \<^verbatim>\<open>Promise.all\<close> applied to a function. A function is not iterable, so
  \<^verbatim>\<open>Promise.all\<close> returns a promise rejected with a \<^verbatim>\<open>TypeError\<close>; the function is
  never called.
\<close>

definition promise_all_function ::
  "(world \<Rightarrow> unit promise \<times> world) \<Rightarrow> world \<Rightarrow> unit promise \<times> world" where
  "promise_all_function callback s = (Rejected (Error TypeError), s)"

text \<open>The function that \<^verbatim>\<open>run\<close> hands to \<^verbatim>\<open>Promise.all\<close>.\<close>

definition install_all :: "(string list \<Rightarrow> int option) \<Rightarrow> world \<Rightarrow> unit promise \<times> world" where
  "install_all close_code s =
     (let allDependencies = [''express'', ''node-fetch''];
          s1 = console_log ''Installing packages. This might take a couple of minutes.'' s;
          s2 = console_log ''Installing express, node-fetch'' s1;
          s3 = console_log [] s2
      in install close_code allDependencies s3)"

definition knownGeneratedFiles :: "string list" where
  "knownGeneratedFiles = [''package.json'', ''node_modules'']"

text \<open>The two nested loops of the rollback.\<close>

definition delete_if_match :: "path \<Rightarrow> string \<Rightarrow> string \<Rightarrow> world \<Rightarrow> world" where
  "delete_if_match root file fileToMatch s =
     (if file = fileToMatch
      then removeSync (join_path root file) (console_log (''Deleting generated file... '' @ file) s)
      else s)"

definition delete_generated :: "path \<Rightarrow> string \<Rightarrow> world \<Rightarrow> world" where
  "delete_generated root file s = fold (delete_if_match root file) knownGeneratedFiles s"

text \<open>\<^verbatim>\<open>reason.command\<close> as a condition: a non-empty string.\<close>

definition has_command :: "reason \<Rightarrow> bool" where
  "has_command r = (case r of Command c \<Rightarrow> c \<noteq> [] | Error e \<Rightarrow> False)"

definition command_text :: "reason \<Rightarrow> string" where
  "command_text r = (case r of Command c \<Rightarrow> c | Error e \<Rightarrow> [])"

text \<open>The handler given to \<^verbatim>\<open>.catch\<close>: first what it prints about the reason, then
  the rollback.\<close>

definition report_reason :: "reason \<Rightarrow> world \<Rightarrow> world" where
  "report_reason r s =
     (let s1 = console_log [] s;
          s2 = console_log ''Aborting installation.'' s1;
          s3 = (if has_command r
                then console_log (''  '' @ command_text r @ '' has failed.'') s2
                else emit (ConsoleValue Stdout r)
                       (console_log ''Unexpected error. Please report it as a bug:'' s2))
      in console_log [] s3)"

definition on_rejected :: "path \<Rightarrow> string \<Rightarrow> reason \<Rightarrow> world \<Rightarrow> unit outcome \<times> world" where
  "on_rejected root appName r s =
     (let s4 = report_reason r s in
      case readdirSync root s4 of
        Inl e \<Rightarrow> (Thrown e, s4)
      | Inr currentFiles \<Rightarrow>
          let s5 = fold (delete_generated root) currentFiles s4 in
          (case readdirSync root s5 of
             Inl e \<Rightarrow> (Thrown e, s5)
           | Inr remainingFiles \<Rightarrow>
               if length remainingFiles = 0 then
                 let s6 = console_log
                       (''Deleting '' @ appName @ ''/ from '' @ path_string (parent root)) s5
                 in (case chdir (parent root) s6 of
                       Inl e \<Rightarrow> (Thrown e, s6)
                     | Inr s7 \<Rightarrow> (Exited 1, console_log ''Done.'' (removeSync root s7)))
               else (Exited 1, console_log ''Done.'' s5)))"

definition run ::
  "(string list \<Rightarrow> int option) \<Rightarrow> path \<Rightarrow> string \<Rightarrow> world \<Rightarrow> unit outcome \<times> world" where
  "run close_code root appName s =
     (case promise_all_function (install_all close_code) s of
        (Resolved u, s1) \<Rightarrow> (Returned (), s1)
      | (Rejected r, s1) \<Rightarrow> on_rejected root appName r s1)"

section \<open>The check of the working directory\<close>

text \<open>
  What lies outside the program, gathered: the naming policy, the output of
  \<^verbatim>\<open>npm config list\<close> started in a working directory (\<open>None\<close> when spawning it
  throws), the close code of the package manager, \<^verbatim>\<open>process.platform\<close>, and the
  value of the global identifier \<^verbatim>\<open>version\<close>. The file declares no \<^verbatim>\<open>version\<close>
  and imports none, so the identifier is bound only if something else has put it on
  the global object; \<open>None\<close> is the unbound identifier.
\<close>

record system =
  validate :: "string \<Rightarrow> validation_result"
  npm_config_list :: "path \<Rightarrow> string option"
  npm_close_code :: "string list \<Rightarrow> int option"
  platform :: string
  global_version :: "string option"

definition cwd_prefix :: string where
  "cwd_prefix = ''; cwd = ''"

definition wrong_directory_message :: "string \<Rightarrow> string \<Rightarrow> string" where
  "wrong_directory_message dir npmCWD =
     ''Could not start an npm process in the right directory.'' @ nl @ nl @
     ''The current directory is: '' @ dir @ nl @
     ''However, a newly started npm process runs in: '' @ npmCWD @ nl @ nl @
     ''This is probably caused by a misconfigured system terminal shell.''"

definition windows_hint :: string where
  "windows_hint =
     ''On Windows, this can usually be fixed by running:'' @ nl @ nl @
     ''  reg delete '' @ dquote @ ''HKCU'' @ backslash @ ''Software'' @ backslash @
       ''Microsoft'' @ backslash @ ''Command Processor'' @ dquote @ '' /v AutoRun /f'' @ nl @
     ''  reg delete '' @ dquote @ ''HKLM'' @ backslash @ ''Software'' @ backslash @
       ''Microsoft'' @ backslash @ ''Command Processor'' @ dquote @ '' /v AutoRun /f'' @ nl @ nl @
     ''Try to run the above two lines in the terminal.'' @ nl @
     ''To learn more about this problem, read: '' @
     ''https://blogs.msdn.microsoft.com/oldnewthing/20071121-00/?p=24433/''"

definition checkThatNpmCanReadCwd :: "system \<Rightarrow> world \<Rightarrow> bool \<times> world" where
  "checkThatNpmCanReadCwd sys s =
     (let dir = path_string (cwd s);
          s1 = emit (Spawn ''npm'' [''config'', ''list''] Pipe) s
      in case npm_config_list sys (cwd s) of
           None \<Rightarrow> (True, s1)
         | Some childOutput \<Rightarrow>
             let lines = split_on (CHR 0x0A) [] childOutput in
             (case find (\<lambda>line. prefix cwd_prefix line) lines of
                None \<Rightarrow> (True, s1)
              | Some line \<Rightarrow>
                  let npmCWD = drop (length cwd_prefix) line in
                  if npmCWD = dir then (True, s1)
                  else
                    let s2 = console_error (wrong_directory_message dir npmCWD) s1;
                        s3 = (if platform sys = ''win32'' then console_error windows_hint s2 else s2)
                    in (False, s3)))"

section \<open>The initializer\<close>

text \<open>\<open>createApp\<close> is modelled in two parts. The second part starts at the write of
  the manifest; \<open>s6\<close> is the world after the announcement has been printed. The call of
  \<^verbatim>\<open>run\<close> has four arguments, \<^verbatim>\<open>root, appName, version, originalDirectory\<close>; they
  are evaluated before the call, and \<^verbatim>\<open>run\<close> declares only the first two parameters,
  so the working directory saved in \<^verbatim>\<open>originalDirectory\<close> is not used.\<close>

definition createApp_from_manifest ::
  "system \<Rightarrow> path \<Rightarrow> string \<Rightarrow> world \<Rightarrow> unit outcome \<times> world" where
  "createApp_from_manifest sys root appName s6 =
     (let packageJson = \<lparr>name = appName, version = ''0.1.0'', is_private = True\<rparr> in
      case writeFileSync (join_path root ''package.json'') packageJson s6 of
        Inl e \<Rightarrow> (Thrown e, s6)
      | Inr s7 \<Rightarrow>
          (case chdir root s7 of
             Inl e \<Rightarrow> (Thrown e, s7)
           | Inr s8 \<Rightarrow>
               (case checkThatNpmCanReadCwd sys s8 of
                  (False, s9) \<Rightarrow> (Exited 1, s9)
                | (True, s9) \<Rightarrow>
                    (case global_version sys of
                       None \<Rightarrow> (Thrown (ReferenceError ''version''), s9)
                     | Some v \<Rightarrow> run (npm_close_code sys) root appName s9))))"

definition createApp :: "system \<Rightarrow> string \<Rightarrow> world \<Rightarrow> unit outcome \<times> world" where
  "createApp sys nm s =
     (let root = resolve (cwd s) nm;
          appName = basename root
      in case checkAppName (validate sys) appName s of
           (Exited c, s1) \<Rightarrow> (Exited c, s1)
         | (Thrown e, s1) \<Rightarrow> (Thrown e, s1)
         | (Returned u, s1) \<Rightarrow>
             (case ensureDirSync (resolve (cwd s1) nm) s1 of
                Inl e \<Rightarrow> (Thrown e, s1)
              | Inr s2 \<Rightarrow>
                  (case isSafeToCreateProjectIn root nm s2 of
                     (Exited c, s3) \<Rightarrow> (Exited c, s3)
                   | (Thrown e, s3) \<Rightarrow> (Thrown e, s3)
                   | (Returned safe, s3) \<Rightarrow>
                       if \<not> safe then (Exited 1, s3)
                       else
                         let s4 = console_log [] s3;
                             s5 = console_log (''Creating a new app in '' @ path_string root @ ''.'') s4;
                             s6 = console_log [] s5
                         in createApp_from_manifest sys root appName s6)))"

section \<open>Auxiliary notions and example worlds\<close>

text \<open>The line that the scan prints for a conflict, as a function of the world.\<close>

definition conflict_line :: "path \<Rightarrow> world \<Rightarrow> string \<Rightarrow> string" where
  "conflict_line root s file =
     (if map_of (files s) (root @ [file]) = Some Directory
      then ''  '' @ file @ ''/'' else ''  '' @ file)"

text \<open>The events that were added to the trace between two worlds; and the events that
  change what is inside the target directory: a file written, a path removed, the
  package manager started to install.\<close>

definition events_since :: "world \<Rightarrow> world \<Rightarrow> event list" where
  "events_since s s' = drop (length (trace s)) (trace s')"

fun touches_target :: "event \<Rightarrow> bool" where
  "touches_target (WriteFile p m) = True"
| "touches_target (Remove p) = True"
| "touches_target (Spawn command args io) = (take 1 args = [''install''])"
| "touches_target e = False"

text \<open>A directory \<^verbatim>\<open>/tmp/app\<close> in three states: with version-control metadata and a
  readme only; with a user file and a stale log; with version-control metadata, an IDE
  module file and a rotated stale log. Entries are listed in the order of their names.\<close>

definition tmp_app :: path where
  "tmp_app = [''tmp'', ''app'']"

definition world_git :: world where
  "world_git =
     \<lparr>files = [([], Directory), ([''tmp''], Directory), (tmp_app, Directory),
               (tmp_app @ [''.git''], Directory), (tmp_app @ [''README.md''], File)],
      cwd = [''tmp''], trace = []\<rparr>"

definition world_notes :: world where
  "world_notes =
     \<lparr>files = [([], Directory), ([''tmp''], Directory), (tmp_app, Directory),
               (tmp_app @ [''notes.txt''], File), (tmp_app @ [''npm-debug.log''], File)],
      cwd = [''tmp''], trace = []\<rparr>"

definition world_logs :: world where
  "world_logs =
     \<lparr>files = [([], Directory), ([''tmp''], Directory), (tmp_app, Directory),
               (tmp_app @ [''.git''], Directory), (tmp_app @ [''app.iml''], File),
               (tmp_app @ [''npm-debug.log.1''], File)],
      cwd = [''tmp''], trace = []\<rparr>"

text \<open>A system that accepts every name, whose \<^verbatim>\<open>npm config list\<close> reports the
  working directory it was started in, whose package manager succeeds, and in which the
  identifier \<^verbatim>\<open>version\<close> is unbound; the same system with a global \<^verbatim>\<open>version\<close>;
  a system whose \<^verbatim>\<open>npm config list\<close> reports another working directory; and a
  naming policy that rejects every name with one error and one warning.\<close>

definition system_unix :: system where
  "system_unix =
     \<lparr>validate = (\<lambda>n. \<lparr>validForNewPackages = True, errors = None, warnings = None\<rparr>),
      npm_config_list = (\<lambda>dir. Some (''; cwd = '' @ path_string dir)),
      npm_close_code = (\<lambda>args. Some 0),
      platform = ''linux'',
      global_version = None\<rparr>"

definition system_global :: system where
  "system_global =
     \<lparr>validate = (\<lambda>n. \<lparr>validForNewPackages = True, errors = None, warnings = None\<rparr>),
      npm_config_list = (\<lambda>dir. Some (''; cwd = '' @ path_string dir)),
      npm_close_code = (\<lambda>args. Some 0),
      platform = ''linux'',
      global_version = Some ''1.0.0''\<rparr>"

definition system_moved :: system where
  "system_moved =
     \<lparr>validate = (\<lambda>n. \<lparr>validForNewPackages = True, errors = None, warnings = None\<rparr>),
      npm_config_list = (\<lambda>dir. Some (''; cwd = /elsewhere'')),
      npm_close_code = (\<lambda>args. Some 0),
      platform = ''linux'',
      global_version = None\<rparr>"

definition validate_strict :: "string \<Rightarrow> validation_result" where
  "validate_strict n =
     \<lparr>validForNewPackages = False,
      errors = Some [''name cannot start with a period''],
      warnings = Some [''name can no longer contain capital letters'']\<rparr>"

text \<open>\<^verbatim>\<open>/tmp/app\<close> after the manifest was written and dependencies were unpacked, with
  the process inside it; \<^verbatim>\<open>/tmp/app\<close> with the manifest beside version-control
  metadata; \<^verbatim>\<open>/tmp/app\<close> as a regular file; and \<^verbatim>\<open>/home/u/a/b\<close> with the manifest
  only, reached by the
  argument \<^verbatim>\<open>a/b\<close> from \<^verbatim>\<open>/home/u\<close>. \<open>install_failed\<close> is what \<^verbatim>\<open>install\<close>
  rejects with for the two dependencies.\<close>

definition world_manifest :: world where
  "world_manifest =
     \<lparr>files = [([], Directory), ([''tmp''], Directory), (tmp_app, Directory),
               (tmp_app @ [''node_modules''], Directory),
               (tmp_app @ [''node_modules'', ''express''], Directory),
               (tmp_app @ [''package.json''], File)],
      cwd = tmp_app, trace = []\<rparr>"

definition world_kept :: world where
  "world_kept =
     \<lparr>files = [([], Directory), ([''tmp''], Directory), (tmp_app, Directory),
               (tmp_app @ [''.git''], Directory), (tmp_app @ [''package.json''], File)],
      cwd = tmp_app, trace = []\<rparr>"

definition world_blocked :: world where
  "world_blocked =
     \<lparr>files = [([], Directory), ([''tmp''], Directory), (tmp_app, File)],
      cwd = [''tmp''], trace = []\<rparr>"

definition nested_root :: path where
  "nested_root = [''home'', ''u'', ''a'', ''b'']"

definition world_nested :: world where
  "world_nested =
     \<lparr>files = [([], Directory), ([''home''], Directory), ([''home'', ''u''], Directory),
               ([''home'', ''u'', ''a''], Directory), (nested_root, Directory),
               (nested_root @ [''package.json''], File)],
      cwd = nested_root, trace = []\<rparr>"

definition install_failed :: reason where
  "install_failed =
     Command ''npm install --no-audit --save --save-exact --loglevel error express node-fetch''"

section \<open>Effects of the primitive operations\<close>

lemma emit_simps [simp]:
  "files (emit e s) = files s" "cwd (emit e s) = cwd s" "trace (emit e s) = trace s @ [e]"
  by (simp_all add: emit_def)

lemma console_log_simps [simp]:
  "files (console_log m s) = files s" "cwd (console_log m s) = cwd s"
  "trace (console_log m s) = trace s @ [Console Stdout m]"
  by (simp_all add: console_log_def)

lemma console_error_simps [simp]:
  "files (console_error m s) = files s" "cwd (console_error m s) = cwd s"
  "trace (console_error m s) = trace s @ [Console Stderr m]"
  by (simp_all add: console_error_def)

lemma removeSync_simps [simp]:
  "files (removeSync p s) = filter (\<lambda>e. \<not> prefix p (fst e)) (files s)"
  "cwd (removeSync p s) = cwd s"
  "trace (removeSync p s) = trace s @ [Remove p]"
  by (simp_all add: removeSync_def)

section \<open>The scan: what it reports and what it removes\<close>

lemma print_conflict_eq:
  "print_conflict root file s = console_log (conflict_line root s file) s"
  by (simp add: print_conflict_def conflict_line_def lstatSync_def join_path_def split: option.splits)

lemma conflict_line_trace [simp]: "conflict_line root (s\<lparr>trace := t\<rparr>) = conflict_line root s"
  by (simp add: conflict_line_def fun_eq_iff)

lemma fold_print_conflict:
  "fold (print_conflict root) cs s =
     s\<lparr>trace := trace s @ map (\<lambda>file. Console Stdout (conflict_line root s file)) cs\<rparr>"
proof (induction cs arbitrary: s)
  case Nil
  show ?case by simp
next
  case (Cons c cs)
  have step: "print_conflict root c s = s\<lparr>trace := trace s @ [Console Stdout (conflict_line root s c)]\<rparr>"
    by (simp add: print_conflict_eq console_log_def emit_def)
  have "fold (print_conflict root) (c # cs) s = fold (print_conflict root) cs (print_conflict root c s)"
    by simp
  also have "\<dots> = s\<lparr>trace := trace s @ map (\<lambda>file. Console Stdout (conflict_line root s file)) (c # cs)\<rparr>"
    unfolding Cons.IH step by simp
  finally show ?case .
qed

lemma readdirSync_Inr:
  "readdirSync p s = Inr l \<longleftrightarrow> is_dir (files s) p \<and> l = children (files s) p"
  by (auto simp: readdirSync_def is_dir_def split: option.splits kind.splits)

lemma map_of_filter_key:
  "map_of (filter (\<lambda>e. P (fst e)) fs) q = (if P q then map_of fs q else None)"
  by (induction fs) auto

lemma prefix_child:
  assumes "q \<noteq> []" and "butlast q = p"
  shows "prefix (p @ [f]) q \<longleftrightarrow> f = last q"
proof -
  from assms have q: "q = p @ [last q]" by (metis append_butlast_last_id)
  have "prefix (p @ [f]) (p @ [last q]) \<longleftrightarrow> f = last q" by auto
  with q show ?thesis by simp
qed

lemma children_filter:
  "children (filter (\<lambda>e. \<not> (\<exists>f\<in>F. prefix (p @ [f]) (fst e))) fs) p =
     filter (\<lambda>n. n \<notin> F) (children fs p)"
proof (induction fs)
  case Nil
  show ?case by (simp add: children_def)
next
  case (Cons e fs)
  show ?case
  proof (cases "fst e \<noteq> [] \<and> butlast (fst e) = p")
    case True
    then have "(\<forall>f\<in>F. \<not> prefix (p @ [f]) (fst e)) \<longleftrightarrow> last (fst e) \<notin> F"
      by (auto simp: prefix_child)
    with True Cons show ?thesis by (simp add: children_def)
  next
    case False
    with Cons show ?thesis by (auto simp: children_def)
  qed
qed

lemma remove_if_error_log_files:
  "files (remove_if_error_log root a s) =
     filter (\<lambda>e. \<not> (isErrorLog a \<and> prefix (root @ [a]) (fst e))) (files s)"
  by (simp add: remove_if_error_log_def join_path_def)

lemma fold_remove_files:
  "files (fold (remove_if_error_log root) l s) =
     filter (\<lambda>e. \<not> (\<exists>f\<in>set l. isErrorLog f \<and> prefix (root @ [f]) (fst e))) (files s)"
proof (induction l arbitrary: s)
  case Nil
  show ?case by simp
next
  case (Cons a l)
  have "files (fold (remove_if_error_log root) (a # l) s) =
        filter (\<lambda>e. \<not> (\<exists>f\<in>set l. isErrorLog f \<and> prefix (root @ [f]) (fst e)))
          (files (remove_if_error_log root a s))"
    using Cons.IH by simp
  also have "\<dots> = filter (\<lambda>e. \<not> (\<exists>f\<in>set (a # l). isErrorLog f \<and> prefix (root @ [f]) (fst e))) (files s)"
    unfolding remove_if_error_log_files by (auto intro: filter_cong)
  finally show ?case .
qed

lemma fold_remove_trace:
  "trace (fold (remove_if_error_log root) l s) =
     trace s @ map (\<lambda>f. Remove (root @ [f])) (filter isErrorLog l)"
  by (induction l arbitrary: s) (simp_all add: remove_if_error_log_def join_path_def)

lemma scan_throws:
  "readdirSync root s = Inl e \<Longrightarrow> isSafeToCreateProjectIn root nm s = (Thrown e, s)"
  by (simp add: isSafeToCreateProjectIn_def)

lemma scan_conflicts:
  assumes "readdirSync root s = Inr listing" and "conflicts_of listing \<noteq> []"
  shows "isSafeToCreateProjectIn root nm s =
     (Returned False,
      s\<lparr>trace := trace s @
         [Console Stdout (''The directory '' @ nm @ '' contains files that could conflict:''),
          Console Stdout []] @
         map (\<lambda>file. Console Stdout (conflict_line root s file)) (conflicts_of listing) @
         [Console Stdout [],
          Console Stdout
            ''Either try using a new directory name, or remove the files listed above.'']\<rparr>)"
  using assms
  by (simp add: isSafeToCreateProjectIn_def Let_def fold_print_conflict console_log_def emit_def)

lemma scan_clean:
  assumes "readdirSync root s = Inr listing" and "conflicts_of listing = []"
  shows "isSafeToCreateProjectIn root nm s =
           (Returned True, fold (remove_if_error_log root) listing s)"
  using assms by (simp add: isSafeToCreateProjectIn_def)

lemma in_conflicts_of:
  "file \<in> set (conflicts_of listing) \<longleftrightarrow>
     file \<in> set listing \<and> file \<notin> set validFiles \<and> \<not> isIml file \<and> \<not> isErrorLog file"
  by (auto simp: conflicts_of_def)

lemma valid_file_no_error_log: "file \<in> set validFiles \<Longrightarrow> \<not> isErrorLog file"
  by (auto simp: validFiles_def isErrorLog_def errorLogFilePatterns_def)

lemma fold_remove_none:
  "\<forall>f\<in>set l. \<not> isErrorLog f \<Longrightarrow> fold (remove_if_error_log root) l s = s"
  by (induction l arbitrary: s) (simp_all add: remove_if_error_log_def)

lemma children_after_removal:
  "children (files (fold (remove_if_error_log root) l s)) root =
     filter (\<lambda>n. \<not> (n \<in> set l \<and> isErrorLog n)) (children (files s) root)"
proof -
  have eq: "(\<lambda>e. \<not> (\<exists>f\<in>set l. isErrorLog f \<and> prefix (root @ [f]) (fst e))) =
            (\<lambda>e::path \<times> kind. \<not> (\<exists>f\<in>{f \<in> set l. isErrorLog f}. prefix (root @ [f]) (fst e)))"
    by auto
  show ?thesis
    unfolding fold_remove_files eq children_filter by simp
qed

lemma conflicts_of_filter: "conflicts_of (filter P l) = filter P (conflicts_of l)"
  by (auto simp: conflicts_of_def intro: filter_cong)

lemma is_dir_after_removal:
  "map_of (files (fold (remove_if_error_log root) l s)) root = map_of (files s) root"
  unfolding fold_remove_files
  using map_of_filter_key [of "\<lambda>q. \<not> (\<exists>f\<in>set l. isErrorLog f \<and> prefix (root @ [f]) q)" "files s" root]
  by simp

lemma scan_true_iff:
  "fst (isSafeToCreateProjectIn root nm s) = Returned True \<longleftrightarrow>
     (\<exists>listing. readdirSync root s = Inr listing \<and> conflicts_of listing = [])"
proof (cases "readdirSync root s")
  case (Inl e)
  then show ?thesis by (simp add: scan_throws)
next
  case (Inr listing)
  then show ?thesis
    by (cases "conflicts_of listing = []") (simp_all add: scan_clean scan_conflicts)
qed

lemma scan_false_iff:
  "fst (isSafeToCreateProjectIn root nm s) = Returned False \<longleftrightarrow>
     (\<exists>listing. readdirSync root s = Inr listing \<and> conflicts_of listing \<noteq> [])"
proof (cases "readdirSync root s")
  case (Inl e)
  then show ?thesis by (simp add: scan_throws)
next
  case (Inr listing)
  then show ?thesis
    by (cases "conflicts_of listing = []") (simp_all add: scan_clean scan_conflicts)
qed

subsection \<open>The example worlds\<close>

lemma readdir_world_git: "readdirSync tmp_app world_git = Inr [''.git'', ''README.md'']"
  by (simp add: readdirSync_def children_def world_git_def tmp_app_def)

lemma readdir_world_notes: "readdirSync tmp_app world_notes = Inr [''notes.txt'', ''npm-debug.log'']"
  by (simp add: readdirSync_def children_def world_notes_def tmp_app_def)

lemma readdir_world_logs:
  "readdirSync tmp_app world_logs = Inr [''.git'', ''app.iml'', ''npm-debug.log.1'']"
  by (simp add: readdirSync_def children_def world_logs_def tmp_app_def)

section \<open>Claims about the directory-safety scan\<close>

text \<open>
  C3. For every target directory whose entries are all on the fixed allow-list, the scan
  finds no conflict and \<open>isSafeToCreateProjectIn\<close> returns true, leaving the world as
  it was. In particular this holds for a directory that contains only \<^verbatim>\<open>.git\<close> and
  \<^verbatim>\<open>README.md\<close>. For a directory that contains the file \<^verbatim>\<open>notes.txt\<close> it returns
  false, \<^verbatim>\<open>notes.txt\<close> is among the conflicts, and it is printed as a file (no
  trailing slash).
\<close>

theorem scan_allow_listed:
  assumes "readdirSync root s = Inr listing"
  shows "((\<forall>file\<in>set listing. file \<in> set validFiles) \<longrightarrow>
            conflicts_of listing = [] \<and> isSafeToCreateProjectIn root nm s = (Returned True, s))
       \<and> (listing = [''.git'', ''README.md''] \<longrightarrow>
            isSafeToCreateProjectIn root nm s = (Returned True, s))
       \<and> (''notes.txt'' \<in> set listing \<and> lstatSync (join_path root ''notes.txt'') s = Inr File \<longrightarrow>
            fst (isSafeToCreateProjectIn root nm s) = Returned False \<and>
            ''notes.txt'' \<in> set (conflicts_of listing) \<and>
            Console Stdout ''  notes.txt'' \<in> set (trace (snd (isSafeToCreateProjectIn root nm s))))"
proof -
  have valid: "conflicts_of listing = [] \<and> isSafeToCreateProjectIn root nm s = (Returned True, s)"
    if all: "\<forall>file\<in>set listing. file \<in> set validFiles"
  proof -
    have none: "conflicts_of listing = []"
      using all by (auto simp: conflicts_of_def filter_empty_conv)
    have "\<forall>f\<in>set listing. \<not> isErrorLog f"
      using all valid_file_no_error_log by blast
    then have "fold (remove_if_error_log root) listing s = s"
      by (rule fold_remove_none)
    with scan_clean [OF assms none] none show ?thesis by simp
  qed
  have git: "isSafeToCreateProjectIn root nm s = (Returned True, s)"
    if "listing = [''.git'', ''README.md'']"
  proof -
    from that have "\<forall>file\<in>set listing. file \<in> set validFiles"
      by (simp add: validFiles_def)
    with valid show ?thesis by simp
  qed
  have reported: "fst (isSafeToCreateProjectIn root nm s) = Returned False \<and>
      ''notes.txt'' \<in> set (conflicts_of listing) \<and>
      Console Stdout ''  notes.txt'' \<in> set (trace (snd (isSafeToCreateProjectIn root nm s)))"
    if present: "''notes.txt'' \<in> set listing"
      and stat: "lstatSync (join_path root ''notes.txt'') s = Inr File"
  proof -
    have c: "''notes.txt'' \<in> set (conflicts_of listing)"
      using present
      by (simp add: in_conflicts_of validFiles_def isIml_def isErrorLog_def
          errorLogFilePatterns_def suffix_to_prefix)
    then have ne: "conflicts_of listing \<noteq> []" by auto
    have line: "conflict_line root s ''notes.txt'' = ''  notes.txt''"
      using stat by (simp add: conflict_line_def lstatSync_def join_path_def split: option.splits)
    have "Console Stdout (conflict_line root s ''notes.txt'') \<in>
            (\<lambda>file. Console Stdout (conflict_line root s file)) ` set (conflicts_of listing)"
      using c by (rule imageI)
    with line have "Console Stdout ''  notes.txt'' \<in>
            (\<lambda>file. Console Stdout (conflict_line root s file)) ` set (conflicts_of listing)"
      by simp
    with c show ?thesis
      unfolding scan_conflicts [OF assms ne] by simp
  qed
  from valid git reported show ?thesis by blast
qed

theorem scan_allow_listed_witness:
  "isSafeToCreateProjectIn tmp_app ''app'' world_git = (Returned True, world_git)
   \<and> fst (isSafeToCreateProjectIn tmp_app ''app'' world_notes) = Returned False
   \<and> Console Stdout ''  notes.txt''
       \<in> set (trace (snd (isSafeToCreateProjectIn tmp_app ''app'' world_notes)))"
proof -
  have stat: "lstatSync (join_path tmp_app ''notes.txt'') world_notes = Inr File"
    by (simp add: lstatSync_def join_path_def world_notes_def tmp_app_def)
  from scan_allow_listed [OF readdir_world_git, of "''app''"]
    scan_allow_listed [OF readdir_world_notes, of "''app''"] stat
  show ?thesis by simp
qed

text \<open>
  C4, as stated: every file that matches the stale-log pattern is deleted by the scan.
  This fails when the directory also holds a conflict: the scan returns before the
  loop that removes the logs. In \<^verbatim>\<open>/tmp/app\<close> with \<^verbatim>\<open>notes.txt\<close> and
  \<^verbatim>\<open>npm-debug.log\<close> the scan returns false and \<^verbatim>\<open>npm-debug.log\<close> is still there.
\<close>

theorem stale_log_not_deleted_counterexample:
  "fst (isSafeToCreateProjectIn tmp_app ''app'' world_notes) = Returned False
   \<and> isErrorLog ''npm-debug.log''
   \<and> ''npm-debug.log'' \<in> set (children (files (snd (isSafeToCreateProjectIn tmp_app ''app'' world_notes))) tmp_app)"
proof -
  have c: "conflicts_of [''notes.txt'', ''npm-debug.log''] = [''notes.txt'']"
    by (simp add: conflicts_of_def validFiles_def isIml_def isErrorLog_def
        errorLogFilePatterns_def suffix_to_prefix)
  have e: "isErrorLog ''npm-debug.log''"
    by (simp add: isErrorLog_def errorLogFilePatterns_def)
  have "isSafeToCreateProjectIn tmp_app ''app'' world_notes =
      (Returned False, world_notes\<lparr>trace := trace world_notes @
         [Console Stdout (''The directory '' @ ''app'' @ '' contains files that could conflict:''),
          Console Stdout []] @
         map (\<lambda>file. Console Stdout (conflict_line tmp_app world_notes file))
           (conflicts_of [''notes.txt'', ''npm-debug.log'']) @
         [Console Stdout [],
          Console Stdout
            ''Either try using a new directory name, or remove the files listed above.'']\<rparr>)"
    by (rule scan_conflicts [OF readdir_world_notes]) (simp add: c)
  then show ?thesis
    using e by (simp add: children_def world_notes_def tmp_app_def)
qed

text \<open>
  C4, amended. A file that matches the stale-log pattern never appears among the
  conflicts; and when the scan finds no conflict, it returns true and has deleted that
  file: the file is no longer listed in the directory, its path no longer exists, and the
  removal is in the trace.
\<close>

theorem stale_log_deleted_when_clean:
  assumes "readdirSync root s = Inr listing" and "file \<in> set listing" and "isErrorLog file"
  shows "file \<notin> set (conflicts_of listing)
       \<and> (conflicts_of listing = [] \<longrightarrow>
            fst (isSafeToCreateProjectIn root nm s) = Returned True
          \<and> file \<notin> set (children (files (snd (isSafeToCreateProjectIn root nm s))) root)
          \<and> map_of (files (snd (isSafeToCreateProjectIn root nm s))) (join_path root file) = None
          \<and> Remove (join_path root file) \<in> set (trace (snd (isSafeToCreateProjectIn root nm s))))"
proof -
  have notc: "file \<notin> set (conflicts_of listing)"
    using assms(3) by (simp add: in_conflicts_of)
  have clean: "fst (isSafeToCreateProjectIn root nm s) = Returned True
          \<and> file \<notin> set (children (files (snd (isSafeToCreateProjectIn root nm s))) root)
          \<and> map_of (files (snd (isSafeToCreateProjectIn root nm s))) (join_path root file) = None
          \<and> Remove (join_path root file) \<in> set (trace (snd (isSafeToCreateProjectIn root nm s)))"
    if none: "conflicts_of listing = []"
  proof -
    let ?s' = "fold (remove_if_error_log root) listing s"
    have res: "isSafeToCreateProjectIn root nm s = (Returned True, ?s')"
      by (rule scan_clean [OF assms(1) none])
    have l: "listing = children (files s) root"
      using assms(1) by (simp add: readdirSync_Inr)
    have gone: "file \<notin> set (children (files ?s') root)"
      unfolding children_after_removal using assms(2,3) by simp
    have "map_of (files ?s') (root @ [file]) = None"
      unfolding fold_remove_files
      using assms(2,3)
        map_of_filter_key [of "\<lambda>q. \<not> (\<exists>f\<in>set listing. isErrorLog f \<and> prefix (root @ [f]) q)"
          "files s" "root @ [file]"]
      by auto
    moreover have "Remove (root @ [file]) \<in> set (trace ?s')"
      unfolding fold_remove_trace using assms(2,3) by auto
    ultimately show ?thesis using gone by (simp add: res join_path_def)
  qed
  from notc clean show ?thesis by blast
qed

theorem stale_log_deleted_when_clean_witness:
  "isErrorLog ''npm-debug.log.1''
   \<and> fst (isSafeToCreateProjectIn tmp_app ''app'' world_logs) = Returned True
   \<and> ''npm-debug.log.1''
       \<notin> set (children (files (snd (isSafeToCreateProjectIn tmp_app ''app'' world_logs))) tmp_app)"
proof -
  have e: "isErrorLog ''npm-debug.log.1''"
    by (simp add: isErrorLog_def errorLogFilePatterns_def)
  have c: "conflicts_of [''.git'', ''app.iml'', ''npm-debug.log.1''] = []"
    by (simp add: conflicts_of_def validFiles_def isIml_def isErrorLog_def
        errorLogFilePatterns_def suffix_to_prefix)
  from stale_log_deleted_when_clean [OF readdir_world_logs _ e, of "''app''"] c e
  show ?thesis by simp
qed

text \<open>
  C8. When a scan of a directory finds no conflict, a second scan right after it finds no
  conflict either: both listings have an empty conflict list, and the second scan returns
  true and changes nothing (the first has already removed the stale logs).
\<close>

theorem scan_twice_clean:
  assumes "fst (isSafeToCreateProjectIn root nm s) = Returned True"
  shows "(\<exists>listing. readdirSync root s = Inr listing \<and> conflicts_of listing = [])
       \<and> (\<exists>listing. readdirSync root (snd (isSafeToCreateProjectIn root nm s)) = Inr listing
             \<and> conflicts_of listing = [])
       \<and> isSafeToCreateProjectIn root nm (snd (isSafeToCreateProjectIn root nm s)) =
           (Returned True, snd (isSafeToCreateProjectIn root nm s))"
proof -
  from assms obtain listing where r: "readdirSync root s = Inr listing"
    and none: "conflicts_of listing = []"
    by (auto simp: scan_true_iff)
  let ?s' = "fold (remove_if_error_log root) listing s"
  let ?l' = "filter (\<lambda>n. \<not> (n \<in> set listing \<and> isErrorLog n)) listing"
  have first: "isSafeToCreateProjectIn root nm s = (Returned True, ?s')"
    by (rule scan_clean [OF r none])
  from r have dir: "is_dir (files s) root" and l: "listing = children (files s) root"
    by (simp_all add: readdirSync_Inr)
  have r': "readdirSync root ?s' = Inr ?l'"
    using dir l by (simp add: readdirSync_Inr is_dir_def is_dir_after_removal children_after_removal)
  have none': "conflicts_of ?l' = []"
    by (simp add: conflicts_of_filter none)
  have "\<forall>f\<in>set ?l'. \<not> isErrorLog f" by simp
  then have "fold (remove_if_error_log root) ?l' ?s' = ?s'"
    by (rule fold_remove_none)
  with scan_clean [OF r' none'] have second: "isSafeToCreateProjectIn root nm ?s' = (Returned True, ?s')"
    by simp
  from r none r' none' second show ?thesis
    unfolding first by simp
qed

theorem scan_twice_clean_witness:
  "fst (isSafeToCreateProjectIn tmp_app ''app'' world_logs) = Returned True
   \<and> isSafeToCreateProjectIn tmp_app ''app'' (snd (isSafeToCreateProjectIn tmp_app ''app'' world_logs)) =
       (Returned True, snd (isSafeToCreateProjectIn tmp_app ''app'' world_logs))"
proof -
  have c: "conflicts_of [''.git'', ''app.iml'', ''npm-debug.log.1''] = []"
    by (simp add: conflicts_of_def validFiles_def isIml_def isErrorLog_def
        errorLogFilePatterns_def suffix_to_prefix)
  have t: "fst (isSafeToCreateProjectIn tmp_app ''app'' world_logs) = Returned True"
    using readdir_world_logs c by (simp add: scan_true_iff)
  from scan_twice_clean [OF t] t show ?thesis by simp
qed

text \<open>
  C9. The scan returns false exactly when the listing of the directory has a conflict;
  and whenever it does not return true, the file system and the working directory are
  as before and all it has done is print lines on standard output. So no entry is
  deleted on that path, stale logs included: they are removed only when there is no
  conflict.
\<close>

theorem scan_conflict_no_mutation:
  "(fst (isSafeToCreateProjectIn root nm s) = Returned False \<longleftrightarrow>
      (\<exists>listing. readdirSync root s = Inr listing \<and> conflicts_of listing \<noteq> []))
   \<and> (fst (isSafeToCreateProjectIn root nm s) \<noteq> Returned True \<longrightarrow>
        files (snd (isSafeToCreateProjectIn root nm s)) = files s
      \<and> cwd (snd (isSafeToCreateProjectIn root nm s)) = cwd s
      \<and> (\<exists>lines. trace (snd (isSafeToCreateProjectIn root nm s)) =
            trace s @ map (Console Stdout) lines))"
proof -
  have frame: "files (snd (isSafeToCreateProjectIn root nm s)) = files s
      \<and> cwd (snd (isSafeToCreateProjectIn root nm s)) = cwd s
      \<and> (\<exists>lines. trace (snd (isSafeToCreateProjectIn root nm s)) =
            trace s @ map (Console Stdout) lines)"
    if "fst (isSafeToCreateProjectIn root nm s) \<noteq> Returned True"
  proof (cases "readdirSync root s")
    case (Inl e)
    have "trace s = trace s @ map (Console Stdout) []" by simp
    then show ?thesis unfolding scan_throws [OF Inl] by (simp del: append_Nil2)
  next
    case (Inr listing)
    with that have ne: "conflicts_of listing \<noteq> []"
      by (auto simp: scan_true_iff)
    let ?lines = "[''The directory '' @ nm @ '' contains files that could conflict:'', []] @
         map (conflict_line root s) (conflicts_of listing) @
         [[], ''Either try using a new directory name, or remove the files listed above.'']"
    have "trace (snd (isSafeToCreateProjectIn root nm s)) = trace s @ map (Console Stdout) ?lines"
      unfolding scan_conflicts [OF Inr ne] by (simp add: comp_def)
    then have "\<exists>lines. trace (snd (isSafeToCreateProjectIn root nm s)) =
            trace s @ map (Console Stdout) lines" ..
    then show ?thesis unfolding scan_conflicts [OF Inr ne] by simp
  qed
  with scan_false_iff show ?thesis by blast
qed

theorem scan_conflict_no_mutation_witness:
  "fst (isSafeToCreateProjectIn tmp_app ''app'' world_notes) = Returned False
   \<and> files (snd (isSafeToCreateProjectIn tmp_app ''app'' world_notes)) = files world_notes
   \<and> cwd (snd (isSafeToCreateProjectIn tmp_app ''app'' world_notes)) = cwd world_notes"
proof -
  have c: "conflicts_of [''notes.txt'', ''npm-debug.log''] \<noteq> []"
    by (simp add: conflicts_of_def validFiles_def isIml_def isErrorLog_def
        errorLogFilePatterns_def suffix_to_prefix)
  from scan_conflict_no_mutation [of tmp_app "''app''" world_notes] readdir_world_notes c
  show ?thesis by simp
qed



section \<open>Name validation: what is printed and how it ends\<close>

lemma dependencies_eq: "dependencies = [''express'', ''node-fetch'']"
  by (simp add: dependencies_def)

lemma fold_console_error:
  "fold (\<lambda>error. console_error (f error)) msgs s =
     s\<lparr>trace := trace s @ map (\<lambda>error. Console Stderr (f error)) msgs\<rparr>"
proof (induction msgs arbitrary: s)
  case Nil
  show ?case by simp
next
  case (Cons m msgs)
  show ?case by (simp add: Cons.IH)
qed

lemma checkAppName_invalid:
  assumes "\<not> validForNewPackages (v appName)"
  shows "checkAppName v appName s =
     (Exited 1,
      s\<lparr>trace := trace s @
        [Console Stderr (naming_restrictions_message appName)] @
        map (\<lambda>error. Console Stderr (''  * '' @ error))
          (or_empty (errors (v appName)) @ or_empty (warnings (v appName))) @
        [Console Stderr choose_different_message]\<rparr>)"
  using assms
  by (simp add: checkAppName_def Let_def fold_console_error)

lemma checkAppName_reserved:
  assumes "validForNewPackages (v appName)" and "appName \<in> set dependencies"
  shows "checkAppName v appName s =
     (Exited 1, s\<lparr>trace := trace s @ [Console Stderr (reserved_name_message appName)]\<rparr>)"
  using assms by (simp add: checkAppName_def Let_def console_error_def emit_def)

lemma checkAppName_accepted:
  assumes "validForNewPackages (v appName)" and "appName \<notin> set dependencies"
  shows "checkAppName v appName s = (Returned (), s)"
  using assms by (simp add: checkAppName_def Let_def)

lemma checkAppName_cases:
  "checkAppName v appName s = (Returned (), s) \<or>
   (\<exists>lines. checkAppName v appName s = (Exited 1, s\<lparr>trace := trace s @ map (Console Stderr) lines\<rparr>))"
proof (cases "validForNewPackages (v appName)")
  case False
  let ?lines = "[naming_restrictions_message appName] @
        map (\<lambda>error. ''  * '' @ error)
          (or_empty (errors (v appName)) @ or_empty (warnings (v appName))) @
        [choose_different_message]"
  have "checkAppName v appName s = (Exited 1, s\<lparr>trace := trace s @ map (Console Stderr) ?lines\<rparr>)"
    using False by (simp add: checkAppName_invalid [of v appName s] comp_def)
  then show ?thesis by blast
next
  case True
  show ?thesis
  proof (cases "appName \<in> set dependencies")
    case False
    with True show ?thesis by (simp add: checkAppName_accepted)
  next
    case r: True
    have "checkAppName v appName s =
        (Exited 1, s\<lparr>trace := trace s @ map (Console Stderr) [reserved_name_message appName]\<rparr>)"
      using True r by (simp add: checkAppName_reserved [of v appName s])
    then show ?thesis by blast
  qed
qed

lemma createApp_rejected:
  assumes "fst (checkAppName (validate sys) (basename (resolve (cwd s) nm)) s) \<noteq> Returned ()"
  shows "createApp sys nm s = checkAppName (validate sys) (basename (resolve (cwd s) nm)) s"
  using assms checkAppName_cases [of "validate sys" "basename (resolve (cwd s) nm)" s]
  by (auto simp: createApp_def Let_def)

lemma reserved_name_message_eq:
  "reserved_name_message appName =
     ''Cannot create a project named '' @ dquote @ appName @ dquote @
     '' because a dependency with the same name exists.'' @ nl @
     ''Due to the way npm works, the following names are not allowed:'' @ nl @ nl @
     ''  express'' @ nl @ ''  node-fetch'' @
     nl @ nl @ ''Please choose a different project name.''"
  by (simp add: reserved_name_message_def dependencies_eq)

text \<open>
  C7. For a project name that is one of the reserved dependency names, \<^verbatim>\<open>express\<close> or
  \<^verbatim>\<open>node-fetch\<close>, and that the naming policy accepts, \<open>checkAppName\<close> prints the
  reserved-name message, which lists both forbidden names, and exits with status 1. For
  a name that the naming policy rejects, it prints the heading, then every error and
  every warning of the policy, each on a line of its own, then the closing line, and exits
  with status 1. In both cases \<open>createApp\<close> ends at that exit: its result is the result
  of \<open>checkAppName\<close>, the file system is as it was (no directory is created) and so is
  the working directory.
\<close>

theorem reserved_name_rejected:
  "((appName = ''express'' \<or> appName = ''node-fetch'') \<and> validForNewPackages (v appName) \<longrightarrow>
      checkAppName v appName s =
        (Exited 1,
         s\<lparr>trace := trace s @
           [Console Stderr
             (''Cannot create a project named '' @ dquote @ appName @ dquote @
              '' because a dependency with the same name exists.'' @ nl @
              ''Due to the way npm works, the following names are not allowed:'' @ nl @ nl @
              ''  express'' @ nl @ ''  node-fetch'' @
              nl @ nl @ ''Please choose a different project name.'')]\<rparr>))
   \<and> (\<not> validForNewPackages (v appName) \<longrightarrow>
      checkAppName v appName s =
        (Exited 1,
         s\<lparr>trace := trace s @
           [Console Stderr
             (''Cannot create a project named '' @ dquote @ appName @ dquote @
              '' because of npm naming restrictions:'' @ nl)] @
           map (\<lambda>error. Console Stderr (''  * '' @ error))
             (or_empty (errors (v appName)) @ or_empty (warnings (v appName))) @
           [Console Stderr (nl @ ''Please choose a different project name.'')]\<rparr>))
   \<and> (basename (resolve (cwd s) nm) = ''express'' \<or> basename (resolve (cwd s) nm) = ''node-fetch''
        \<or> \<not> validForNewPackages (validate sys (basename (resolve (cwd s) nm))) \<longrightarrow>
      createApp sys nm s = checkAppName (validate sys) (basename (resolve (cwd s) nm)) s
      \<and> fst (createApp sys nm s) = Exited 1
      \<and> files (snd (createApp sys nm s)) = files s
      \<and> cwd (snd (createApp sys nm s)) = cwd s)"
proof -
  have reserved: "checkAppName v appName s =
        (Exited 1, s\<lparr>trace := trace s @ [Console Stderr (reserved_name_message appName)]\<rparr>)"
    if "appName = ''express'' \<or> appName = ''node-fetch''" and "validForNewPackages (v appName)"
    using that by (auto simp: checkAppName_reserved [of v appName s] dependencies_eq)
  have invalid: "checkAppName v appName s =
        (Exited 1,
         s\<lparr>trace := trace s @
           [Console Stderr (naming_restrictions_message appName)] @
           map (\<lambda>error. Console Stderr (''  * '' @ error))
             (or_empty (errors (v appName)) @ or_empty (warnings (v appName))) @
           [Console Stderr choose_different_message]\<rparr>)"
    if "\<not> validForNewPackages (v appName)"
    using that by (rule checkAppName_invalid)
  let ?a = "basename (resolve (cwd s) nm)"
  let ?c = "checkAppName (validate sys) ?a s"
  have whole: "createApp sys nm s = ?c \<and> fst (createApp sys nm s) = Exited 1
      \<and> files (snd (createApp sys nm s)) = files s \<and> cwd (snd (createApp sys nm s)) = cwd s"
    if bad: "?a = ''express'' \<or> ?a = ''node-fetch'' \<or> \<not> validForNewPackages (validate sys ?a)"
  proof -
    have "?c \<noteq> (Returned (), s)"
    proof (cases "validForNewPackages (validate sys ?a)")
      case False
      then show ?thesis by (simp add: checkAppName_invalid [of "validate sys" ?a s])
    next
      case True
      with bad have "?a \<in> set dependencies" by (auto simp: dependencies_eq)
      with True show ?thesis by (simp add: checkAppName_reserved [of "validate sys" ?a s])
    qed
    with checkAppName_cases [of "validate sys" ?a s]
    obtain lines where c: "?c = (Exited 1, s\<lparr>trace := trace s @ map (Console Stderr) lines\<rparr>)"
      by blast
    then have "fst ?c \<noteq> Returned ()" by simp
    then have "createApp sys nm s = ?c" by (rule createApp_rejected)
    with c show ?thesis by simp
  qed
  from reserved invalid whole show ?thesis
    unfolding reserved_name_message_eq naming_restrictions_message_def choose_different_message_def
    by blast
qed

theorem reserved_name_rejected_witness:
  "fst (checkAppName (validate system_unix) ''express'' world_git) = Exited 1
   \<and> fst (checkAppName validate_strict ''.App'' world_git) = Exited 1
   \<and> Console Stderr ''  * name can no longer contain capital letters''
        \<in> set (trace (snd (checkAppName validate_strict ''.App'' world_git)))
   \<and> createApp system_unix ''x/express'' world_git =
        checkAppName (validate system_unix) ''express'' world_git
   \<and> files (snd (createApp system_unix ''x/express'' world_git)) = files world_git"
proof -
  have b: "basename (resolve (cwd world_git) ''x/express'') = ''express''"
    by (simp add: basename_def resolve_def push_segment_def world_git_def)
  have v: "validForNewPackages (validate system_unix ''express'')"
    by (simp add: system_unix_def)
  have n: "\<not> validForNewPackages (validate_strict ''.App'')"
    by (simp add: validate_strict_def)
  from reserved_name_rejected [of "''express''" "validate system_unix" world_git "''x/express''" system_unix]
    reserved_name_rejected [of "''.App''" validate_strict world_git "''x/express''" system_unix]
    b v n
  show ?thesis
    by (simp add: validate_strict_def or_empty_def)
qed

section \<open>Installation and rollback: the effect on the world\<close>

lemma join_Cons: "join sep (x # xs) = x @ concat (map (\<lambda>y. sep @ y) xs)"
  by (induction xs arbitrary: x) simp_all

lemma run_eq: "run close_code root appName s = on_rejected root appName (Error TypeError) s"
  by (simp add: run_def promise_all_function_def)

lemma delete_generated_eq:
  "delete_generated root file s =
     (if file \<in> set knownGeneratedFiles
      then removeSync (join_path root file) (console_log (''Deleting generated file... '' @ file) s)
      else s)"
  by (auto simp: delete_generated_def delete_if_match_def knownGeneratedFiles_def)

lemma delete_generated_files:
  "files (delete_generated root a s) =
     filter (\<lambda>e. \<not> (a \<in> set knownGeneratedFiles \<and> prefix (root @ [a]) (fst e))) (files s)"
  by (simp add: delete_generated_eq join_path_def)

lemma fold_delete_files:
  "files (fold (delete_generated root) l s) =
     filter (\<lambda>e. \<not> (\<exists>f\<in>set l. f \<in> set knownGeneratedFiles \<and> prefix (root @ [f]) (fst e))) (files s)"
proof (induction l arbitrary: s)
  case Nil
  show ?case by simp
next
  case (Cons a l)
  have "files (fold (delete_generated root) (a # l) s) =
        filter (\<lambda>e. \<not> (\<exists>f\<in>set l. f \<in> set knownGeneratedFiles \<and> prefix (root @ [f]) (fst e)))
          (files (delete_generated root a s))"
    using Cons.IH by simp
  also have "\<dots> = filter (\<lambda>e. \<not> (\<exists>f\<in>set (a # l). f \<in> set knownGeneratedFiles \<and> prefix (root @ [f]) (fst e))) (files s)"
    unfolding delete_generated_files by (auto intro: filter_cong)
  finally show ?case .
qed

lemma fold_delete_cwd: "cwd (fold (delete_generated root) l s) = cwd s"
  by (induction l arbitrary: s) (simp_all add: delete_generated_eq)

lemma children_after_delete:
  "children (files (fold (delete_generated root) l s)) root =
     filter (\<lambda>n. \<not> (n \<in> set l \<and> n \<in> set knownGeneratedFiles)) (children (files s) root)"
proof -
  have eq: "(\<lambda>e. \<not> (\<exists>f\<in>set l. f \<in> set knownGeneratedFiles \<and> prefix (root @ [f]) (fst e))) =
            (\<lambda>e::path \<times> kind. \<not> (\<exists>f\<in>{f \<in> set l. f \<in> set knownGeneratedFiles}. prefix (root @ [f]) (fst e)))"
    by auto
  show ?thesis
    unfolding fold_delete_files eq children_filter by simp
qed

lemma not_prefix_child_parent: "\<not> prefix (root @ [f]) root" "\<not> prefix (root @ [f]) (butlast root)"
proof -
  show "\<not> prefix (root @ [f]) root"
    by (auto dest: prefix_length_le)
  show "\<not> prefix (root @ [f]) (butlast root)"
    by (auto dest: prefix_length_le)
qed

lemma map_of_after_delete:
  "map_of (files (fold (delete_generated root) l s)) root = map_of (files s) root"
  "map_of (files (fold (delete_generated root) l s)) (parent root) = map_of (files s) (parent root)"
proof -
  let ?P = "\<lambda>q. \<not> (\<exists>f\<in>set l. f \<in> set knownGeneratedFiles \<and> prefix (root @ [f]) q)"
  show "map_of (files (fold (delete_generated root) l s)) root = map_of (files s) root"
    unfolding fold_delete_files
    using map_of_filter_key [of ?P "files s" root] by (simp add: not_prefix_child_parent)
  show "map_of (files (fold (delete_generated root) l s)) (parent root) = map_of (files s) (parent root)"
    unfolding fold_delete_files parent_def
    using map_of_filter_key [of ?P "files s" "butlast root"] by (simp add: not_prefix_child_parent)
qed

lemma readdirSync_files: "files a = files b \<Longrightarrow> readdirSync p a = readdirSync p b"
  by (simp add: readdirSync_def split: option.splits kind.splits)

lemma report_reason_simps [simp]:
  "files (report_reason r s) = files s" "cwd (report_reason r s) = cwd s"
  by (simp_all add: report_reason_def Let_def)

lemma readdirSync_after_delete:
  assumes "readdirSync root s = Inr listing"
  shows "readdirSync root (fold (delete_generated root) listing s) =
           Inr (filter (\<lambda>n. n \<notin> set knownGeneratedFiles) listing)"
proof -
  from assms have dir: "is_dir (files s) root" and l: "listing = children (files s) root"
    by (simp_all add: readdirSync_Inr)
  have "filter (\<lambda>n. \<not> (n \<in> set listing \<and> n \<in> set knownGeneratedFiles)) listing =
        filter (\<lambda>n. n \<notin> set knownGeneratedFiles) listing"
    by (auto intro: filter_cong)
  with dir l show ?thesis
    by (simp add: readdirSync_Inr is_dir_def map_of_after_delete children_after_delete)
qed

lemma chdir_dir: "is_dir (files s) p \<Longrightarrow> chdir p s = Inr (emit (ChDir p) (s\<lparr>cwd := p\<rparr>))"
  by (simp add: chdir_def)

lemma filter_under_root:
  "filter (\<lambda>x. (\<forall>f\<in>set l. f \<in> set K \<longrightarrow> \<not> prefix (root @ [f]) (fst x)) \<and> \<not> prefix root (fst x))
     (fs :: filesystem) =
   filter (\<lambda>e. \<not> prefix root (fst e)) fs"
  by (auto intro: filter_cong dest: append_prefixD)

lemma split_on_no_sep: "sep \<notin> set cs \<Longrightarrow> split_on sep acc cs = [rev acc @ cs]"
  by (induction cs arbitrary: acc) auto

lemma resolve_single:
  assumes "nm \<noteq> []" and "CHR ''/'' \<notin> set nm" and "nm \<noteq> ''.''" and "nm \<noteq> ''..''"
  shows "resolve d nm = d @ [nm]"
proof -
  from assms(1,2) have "\<not> prefix ''/'' nm"
    by (cases nm) auto
  moreover have "split_on CHR ''/'' [] nm = [nm]"
    using assms(2) by (simp add: split_on_no_sep)
  ultimately show ?thesis
    using assms(1,3,4) by (simp add: resolve_def push_segment_def)
qed

lemma on_rejected_effect:
  assumes "readdirSync root s = Inr listing" and "is_dir (files s) (parent root)"
  shows "fst (on_rejected root appName r s) = Exited 1"
    and "files (snd (on_rejected root appName r s)) =
      (if filter (\<lambda>n. n \<notin> set knownGeneratedFiles) listing = []
       then filter (\<lambda>e. \<not> prefix root (fst e)) (files s)
       else filter (\<lambda>e. \<not> (\<exists>f\<in>set listing. f \<in> set knownGeneratedFiles \<and>
                               prefix (root @ [f]) (fst e))) (files s))"
    and "cwd (snd (on_rejected root appName r s)) =
      (if filter (\<lambda>n. n \<notin> set knownGeneratedFiles) listing = [] then parent root else cwd s)"
proof -
  let ?s4 = "report_reason r s"
  let ?s5 = "fold (delete_generated root) listing ?s4"
  let ?rest = "filter (\<lambda>n. n \<notin> set knownGeneratedFiles) listing"
  have f4: "files ?s4 = files s" and c4: "cwd ?s4 = cwd s" by simp_all
  have r4: "readdirSync root ?s4 = Inr listing"
    using assms(1) readdirSync_files [OF f4] by simp
  have r5: "readdirSync root ?s5 = Inr ?rest"
    by (rule readdirSync_after_delete [OF r4])
  have f5: "files ?s5 = filter (\<lambda>e. \<not> (\<exists>f\<in>set listing. f \<in> set knownGeneratedFiles \<and>
                               prefix (root @ [f]) (fst e))) (files s)"
    unfolding fold_delete_files f4 ..
  have c5: "cwd ?s5 = cwd s" unfolding fold_delete_cwd c4 ..
  have p5: "is_dir (files ?s5) (parent root)"
    using assms(2) by (simp add: is_dir_def map_of_after_delete)
  let ?s6 = "console_log (''Deleting '' @ appName @ ''/ from '' @ path_string (parent root)) ?s5"
  have res: "on_rejected root appName r s =
      (if ?rest = []
       then (Exited 1, console_log ''Done.''
               (removeSync root (emit (ChDir (parent root)) (?s6\<lparr>cwd := parent root\<rparr>))))
       else (Exited 1, console_log ''Done.'' ?s5))"
    by (simp add: on_rejected_def Let_def r4 r5 chdir_dir p5)
  show "fst (on_rejected root appName r s) = Exited 1"
    unfolding res by simp
  show "files (snd (on_rejected root appName r s)) =
      (if ?rest = []
       then filter (\<lambda>e. \<not> prefix root (fst e)) (files s)
       else filter (\<lambda>e. \<not> (\<exists>f\<in>set listing. f \<in> set knownGeneratedFiles \<and>
                               prefix (root @ [f]) (fst e))) (files s))"
    unfolding res using f5 by (simp add: filter_under_root)
  show "cwd (snd (on_rejected root appName r s)) = (if ?rest = [] then parent root else cwd s)"
    unfolding res using c5 by simp
qed

text \<open>
  C6. For every dependency list, \<open>install\<close> spawns \<^verbatim>\<open>npm\<close> exactly once, with the
  arguments \<^verbatim>\<open>install --no-audit --save --save-exact --loglevel error\<close> followed by
  the dependencies in order, with inherited standard streams, and does nothing else to
  the world. When the child closes with anything but code 0, the promise is rejected
  with the command line: \<^verbatim>\<open>npm\<close>, the fixed arguments and the dependencies, separated
  by single spaces. When it closes with code 0 the promise is resolved.
\<close>

theorem install_spawns_npm:
  "trace (snd (install close_code deps s)) =
     trace s @ [Spawn ''npm''
        ([''install'', ''--no-audit'', ''--save'', ''--save-exact'', ''--loglevel'', ''error''] @ deps)
        Inherit]
   \<and> files (snd (install close_code deps s)) = files s
   \<and> cwd (snd (install close_code deps s)) = cwd s
   \<and> (close_code ([''install'', ''--no-audit'', ''--save'', ''--save-exact'', ''--loglevel'',
          ''error''] @ deps) \<noteq> Some 0 \<longrightarrow>
        fst (install close_code deps s) =
          Rejected (Command (''npm install --no-audit --save --save-exact --loglevel error'' @
                             concat (map (\<lambda>d. '' '' @ d) deps))))
   \<and> (close_code ([''install'', ''--no-audit'', ''--save'', ''--save-exact'', ''--loglevel'',
          ''error''] @ deps) = Some 0 \<longrightarrow>
        fst (install close_code deps s) = Resolved ())"
  by (simp add: install_def install_args_def Let_def join_Cons)

theorem install_spawns_npm_witness:
  "fst (install (\<lambda>args. Some 1) [''express'', ''node-fetch''] world_git) =
     Rejected (Command
       ''npm install --no-audit --save --save-exact --loglevel error express node-fetch'')
   \<and> fst (install (\<lambda>args. Some 0) [''express'', ''node-fetch''] world_git) = Resolved ()"
  using install_spawns_npm [of "\<lambda>args. Some 1" "[''express'', ''node-fetch'']" world_git]
    install_spawns_npm [of "\<lambda>args. Some 0" "[''express'', ''node-fetch'']" world_git]
  by simp

text \<open>
  C5. The claim is that \<open>run\<close> installs the dependency list and then branches on the
  outcome. \<open>run\<close> hands \<^verbatim>\<open>Promise.all\<close> a function, so the function that calls
  \<open>install\<close> is never called and the handler of the rejection always runs. Here the
  package manager would have closed with code 0; all the same nothing is spawned, the
  manifest and \<^verbatim>\<open>node_modules\<close> are deleted, and the process exits with status 1.
\<close>

theorem run_never_installs:
  "run (\<lambda>args. Some 0) tmp_app ''app'' world_manifest =
     (Exited 1,
      \<lparr>files = [([], Directory), ([''tmp''], Directory)], cwd = [''tmp''],
       trace =
         [Console Stdout [], Console Stdout ''Aborting installation.'',
          Console Stdout ''Unexpected error. Please report it as a bug:'',
          ConsoleValue Stdout (Error TypeError), Console Stdout [],
          Console Stdout ''Deleting generated file... node_modules'',
          Remove [''tmp'', ''app'', ''node_modules''],
          Console Stdout ''Deleting generated file... package.json'',
          Remove [''tmp'', ''app'', ''package.json''],
          Console Stdout ''Deleting app/ from /tmp'', ChDir [''tmp''],
          Remove [''tmp'', ''app''], Console Stdout ''Done.'']\<rparr>)"
  by (simp add: run_def promise_all_function_def on_rejected_def report_reason_def has_command_def
      readdirSync_def children_def delete_generated_def delete_if_match_def knownGeneratedFiles_def
      join_path_def chdir_def is_dir_def parent_def path_string_def removeSync_def console_log_def
      emit_def world_manifest_def tmp_app_def Let_def)

text \<open>
  C1, as stated: after the rollback has emptied the target directory, the original
  working directory is restored. The handler changes to the parent of the target
  directory instead. Started in \<^verbatim>\<open>/home/u\<close> with the argument \<^verbatim>\<open>a/b\<close>, the target
  is \<^verbatim>\<open>/home/u/a/b\<close>; after the rollback the process is in \<^verbatim>\<open>/home/u/a\<close>, not in
  \<^verbatim>\<open>/home/u\<close>.
\<close>

theorem rollback_cwd_counterexample:
  "resolve [''home'', ''u''] ''a/b'' = nested_root
   \<and> cwd world_nested = nested_root
   \<and> fst (on_rejected nested_root ''b'' install_failed world_nested) = Exited 1
   \<and> children (files (snd (on_rejected nested_root ''b'' install_failed world_nested)))
        [''home'', ''u'', ''a''] = []
   \<and> cwd (snd (on_rejected nested_root ''b'' install_failed world_nested)) = [''home'', ''u'', ''a'']
   \<and> cwd (snd (on_rejected nested_root ''b'' install_failed world_nested)) \<noteq> [''home'', ''u'']"
proof -
  have r: "readdirSync nested_root world_nested = Inr [''package.json'']"
    by (simp add: readdirSync_def children_def world_nested_def nested_root_def)
  have p: "is_dir (files world_nested) (parent nested_root)"
    by (simp add: is_dir_def parent_def world_nested_def nested_root_def)
  have rest: "filter (\<lambda>n. n \<notin> set knownGeneratedFiles) [''package.json''] = []"
    by (simp add: knownGeneratedFiles_def)
  have "resolve [''home'', ''u''] ''a/b'' = nested_root"
    by (simp add: resolve_def push_segment_def nested_root_def)
  moreover have "cwd world_nested = nested_root"
    by (simp add: world_nested_def)
  moreover have "files (snd (on_rejected nested_root ''b'' install_failed world_nested)) =
      [([], Directory), ([''home''], Directory), ([''home'', ''u''], Directory),
       ([''home'', ''u'', ''a''], Directory)]"
    unfolding on_rejected_effect(2) [OF r p] rest
    by (simp add: world_nested_def nested_root_def)
  moreover have "cwd (snd (on_rejected nested_root ''b'' install_failed world_nested)) =
      [''home'', ''u'', ''a'']"
    unfolding on_rejected_effect(3) [OF r p] rest
    by (simp add: parent_def nested_root_def)
  ultimately show ?thesis
    using on_rejected_effect(1) [OF r p] by (simp add: children_def)
qed

text \<open>
  C1, amended. Let the target directory exist, with its parent. Whatever the promise was
  rejected with, the handler exits with status 1. The generated names are
  \<^verbatim>\<open>package.json\<close> and \<^verbatim>\<open>node_modules\<close>. If the directory holds an entry with another
  name, exactly the listed entries with a generated name are removed, with what is below
  them; every other path stays, the directory then lists the other entries, and the
  working directory is unchanged. If the directory holds generated names only, the
  directory and everything below it is removed, nothing else is, and the working
  directory is the parent of the target directory. \<open>run\<close> always ends in this handler.
  The parent of the target directory is the directory the process started in when the
  argument is a single relative name (not empty, without a slash, neither \<^verbatim>\<open>.\<close> nor
  \<^verbatim>\<open>..\<close>).
\<close>

theorem rollback_effect:
  assumes "readdirSync root s = Inr listing" and "is_dir (files s) (parent root)"
  shows "fst (on_rejected root appName r s) = Exited 1
   \<and> knownGeneratedFiles = [''package.json'', ''node_modules'']
   \<and> ((\<exists>f\<in>set listing. f \<notin> set knownGeneratedFiles) \<longrightarrow>
        files (snd (on_rejected root appName r s)) =
          filter (\<lambda>e. \<not> (\<exists>f\<in>set listing. f \<in> set knownGeneratedFiles \<and>
                               prefix (root @ [f]) (fst e))) (files s)
      \<and> readdirSync root (snd (on_rejected root appName r s)) =
          Inr (filter (\<lambda>f. f \<notin> set knownGeneratedFiles) listing)
      \<and> cwd (snd (on_rejected root appName r s)) = cwd s)
   \<and> ((\<forall>f\<in>set listing. f \<in> set knownGeneratedFiles) \<longrightarrow>
        files (snd (on_rejected root appName r s)) =
          filter (\<lambda>e. \<not> prefix root (fst e)) (files s)
      \<and> map_of (files (snd (on_rejected root appName r s))) root = None
      \<and> cwd (snd (on_rejected root appName r s)) = parent root)
   \<and> run close_code root appName s = on_rejected root appName (Error TypeError) s
   \<and> (nm \<noteq> [] \<and> CHR ''/'' \<notin> set nm \<and> nm \<noteq> ''.'' \<and> nm \<noteq> ''..'' \<longrightarrow>
        parent (resolve d nm) = d)"
proof -
  let ?s' = "snd (on_rejected root appName r s)"
  let ?rest = "filter (\<lambda>f. f \<notin> set knownGeneratedFiles) listing"
  let ?P = "\<lambda>q. \<not> (\<exists>f\<in>set listing. f \<in> set knownGeneratedFiles \<and> prefix (root @ [f]) q)"
  note eff = on_rejected_effect [OF assms, of appName r]
  have some: "files ?s' = filter (\<lambda>e. ?P (fst e)) (files s)
      \<and> readdirSync root ?s' = Inr ?rest \<and> cwd ?s' = cwd s"
    if "\<exists>f\<in>set listing. f \<notin> set knownGeneratedFiles"
  proof -
    from that have ne: "?rest \<noteq> []" by (auto simp: filter_empty_conv)
    have f: "files ?s' = filter (\<lambda>e. ?P (fst e)) (files s)"
      using eff(2) ne by simp
    have c: "cwd ?s' = cwd s"
      using eff(3) ne by simp
    have "files ?s' = files (fold (delete_generated root) listing s)"
      unfolding f fold_delete_files ..
    then have "readdirSync root ?s' = readdirSync root (fold (delete_generated root) listing s)"
      by (rule readdirSync_files)
    with readdirSync_after_delete [OF assms(1)] f c show ?thesis by simp
  qed
  have all: "files ?s' = filter (\<lambda>e. \<not> prefix root (fst e)) (files s)
      \<and> map_of (files ?s') root = None \<and> cwd ?s' = parent root"
    if "\<forall>f\<in>set listing. f \<in> set knownGeneratedFiles"
  proof -
    from that have e: "?rest = []" by (auto simp: filter_empty_conv)
    have f: "files ?s' = filter (\<lambda>e. \<not> prefix root (fst e)) (files s)"
      using eff(2) e by simp
    have "map_of (files ?s') root = None"
      unfolding f using map_of_filter_key [of "\<lambda>q. \<not> prefix root q" "files s" root] by simp
    with f eff(3) e show ?thesis by simp
  qed
  have k: "knownGeneratedFiles = [''package.json'', ''node_modules'']"
    by (simp add: knownGeneratedFiles_def)
  have single: "parent (resolve d nm) = d"
    if "nm \<noteq> [] \<and> CHR ''/'' \<notin> set nm \<and> nm \<noteq> ''.'' \<and> nm \<noteq> ''..''"
    using that by (simp add: resolve_single parent_def)
  from eff(1) k some all run_eq [of close_code root appName s] single show ?thesis
    by blast
qed

theorem rollback_effect_witness:
  "fst (on_rejected tmp_app ''app'' install_failed world_manifest) = Exited 1
   \<and> files (snd (on_rejected tmp_app ''app'' install_failed world_manifest)) =
       [([], Directory), ([''tmp''], Directory)]
   \<and> cwd (snd (on_rejected tmp_app ''app'' install_failed world_manifest)) = [''tmp'']
   \<and> parent (resolve [''tmp''] ''app'') = [''tmp'']
   \<and> files (snd (on_rejected tmp_app ''app'' install_failed world_kept)) =
       [([], Directory), ([''tmp''], Directory), ([''tmp'', ''app''], Directory),
        ([''tmp'', ''app'', ''.git''], Directory)]
   \<and> readdirSync tmp_app (snd (on_rejected tmp_app ''app'' install_failed world_kept)) = Inr [''.git'']
   \<and> cwd (snd (on_rejected tmp_app ''app'' install_failed world_kept)) = [''tmp'', ''app'']"
proof -
  have r: "readdirSync tmp_app world_manifest = Inr [''node_modules'', ''package.json'']"
    by (simp add: readdirSync_def children_def world_manifest_def tmp_app_def)
  have p: "is_dir (files world_manifest) (parent tmp_app)"
    by (simp add: is_dir_def parent_def world_manifest_def tmp_app_def)
  from rollback_effect [OF r p, where appName = "''app''" and r = install_failed
      and close_code = "\<lambda>args. Some 0" and nm = "''app''" and d = "[''tmp'']"]
  have emptied: "fst (on_rejected tmp_app ''app'' install_failed world_manifest) = Exited 1
   \<and> files (snd (on_rejected tmp_app ''app'' install_failed world_manifest)) =
       [([], Directory), ([''tmp''], Directory)]
   \<and> cwd (snd (on_rejected tmp_app ''app'' install_failed world_manifest)) = [''tmp'']
   \<and> parent (resolve [''tmp''] ''app'') = [''tmp'']"
    by (simp add: world_manifest_def tmp_app_def parent_def knownGeneratedFiles_def)

  have r': "readdirSync tmp_app world_kept = Inr [''.git'', ''package.json'']"
    by (simp add: readdirSync_def children_def world_kept_def tmp_app_def)
  have p': "is_dir (files world_kept) (parent tmp_app)"
    by (simp add: is_dir_def parent_def world_kept_def tmp_app_def)
  have other: "\<exists>f\<in>set [''.git'', ''package.json'']. f \<notin> set knownGeneratedFiles"
    by (simp add: knownGeneratedFiles_def)
  have k: "filter (\<lambda>f. f \<notin> set knownGeneratedFiles) [''.git'', ''package.json''] = [''.git'']"
    by (simp add: knownGeneratedFiles_def)
  have f: "filter (\<lambda>e. \<not> (\<exists>f\<in>set [''.git'', ''package.json'']. f \<in> set knownGeneratedFiles \<and>
                               prefix (tmp_app @ [f]) (fst e))) (files world_kept) =
       [([], Directory), ([''tmp''], Directory), ([''tmp'', ''app''], Directory),
        ([''tmp'', ''app'', ''.git''], Directory)]"
    by (simp add: knownGeneratedFiles_def world_kept_def tmp_app_def)
  have c: "cwd world_kept = [''tmp'', ''app'']"
    by (simp add: world_kept_def tmp_app_def)
  from rollback_effect [OF r' p', where appName = "''app''" and r = install_failed
      and close_code = "\<lambda>args. Some 0" and nm = "''app''" and d = "[''tmp'']"] other
  have "files (snd (on_rejected tmp_app ''app'' install_failed world_kept)) =
          filter (\<lambda>e. \<not> (\<exists>f\<in>set [''.git'', ''package.json'']. f \<in> set knownGeneratedFiles \<and>
                               prefix (tmp_app @ [f]) (fst e))) (files world_kept)
      \<and> readdirSync tmp_app (snd (on_rejected tmp_app ''app'' install_failed world_kept)) =
          Inr (filter (\<lambda>f. f \<notin> set knownGeneratedFiles) [''.git'', ''package.json''])
      \<and> cwd (snd (on_rejected tmp_app ''app'' install_failed world_kept)) = cwd world_kept"
    by blast
  then have kept: "files (snd (on_rejected tmp_app ''app'' install_failed world_kept)) =
       [([], Directory), ([''tmp''], Directory), ([''tmp'', ''app''], Directory),
        ([''tmp'', ''app'', ''.git''], Directory)]
   \<and> readdirSync tmp_app (snd (on_rejected tmp_app ''app'' install_failed world_kept)) = Inr [''.git'']
   \<and> cwd (snd (on_rejected tmp_app ''app'' install_failed world_kept)) = [''tmp'', ''app'']"
    unfolding k f c .
  from emptied kept show ?thesis by simp
qed

section \<open>The order of the initializer\<close>

lemma mkdirs_trace:
  "mkdirs qs s = Inr s2 \<Longrightarrow> cwd s2 = cwd s \<and> (\<exists>ps. trace s2 = trace s @ map MkDir ps)"
proof (induction qs arbitrary: s)
  case Nil
  then show ?case by simp
next
  case (Cons q qs)
  show ?case
  proof (cases "map_of (files s) q")
    case None
    let ?s1 = "emit (MkDir q) (s\<lparr>files := files s @ [(q, Directory)]\<rparr>)"
    from Cons.prems None have "mkdirs qs ?s1 = Inr s2" by simp
    from Cons.IH [OF this] obtain ps where "cwd s2 = cwd s" and "trace s2 = trace s @ map MkDir (q # ps)"
      by auto
    then show ?thesis by blast
  next
    case (Some k)
    with Cons.prems have "k = Directory" and "mkdirs qs s = Inr s2"
      by (cases k; simp)+
    with Cons.IH show ?thesis by simp
  qed
qed

lemma ensureDirSync_trace:
  "ensureDirSync p s = Inr s2 \<Longrightarrow> cwd s2 = cwd s \<and> (\<exists>ps. trace s2 = trace s @ map MkDir ps)"
  unfolding ensureDirSync_def by (rule mkdirs_trace)

lemma writeFileSync_Inr:
  "writeFileSync p m x = Inr y \<Longrightarrow> trace y = trace x @ [WriteFile p m] \<and> cwd y = cwd x"
  by (auto simp: writeFileSync_def split: option.splits kind.splits if_splits)

lemma chdir_Inr: "chdir p x = Inr y \<Longrightarrow> trace y = trace x @ [ChDir p]"
  by (auto simp: chdir_def split: if_splits)

lemma check_trace: "prefix (trace x) (trace (snd (checkThatNpmCanReadCwd sys x)))"
  by (auto simp: checkThatNpmCanReadCwd_def Let_def prefix_def split: option.splits)

lemma delete_generated_prefix: "prefix (trace x) (trace (delete_generated root f x))"
  by (simp add: delete_generated_eq prefix_def)

lemma fold_delete_prefix: "prefix (trace x) (trace (fold (delete_generated root) l x))"
proof (induction l arbitrary: x)
  case Nil
  show ?case by simp
next
  case (Cons f l)
  have "prefix (trace x) (trace (delete_generated root f x))"
    by (rule delete_generated_prefix)
  also have "prefix \<dots> (trace (fold (delete_generated root) l (delete_generated root f x)))"
    by (rule Cons.IH)
  finally show ?case by simp
qed

lemma report_reason_prefix: "prefix (trace x) (trace (report_reason r x))"
  by (simp add: report_reason_def Let_def prefix_def)

lemma on_rejected_prefix: "prefix (trace x) (trace (snd (on_rejected root a r x)))"
proof -
  let ?s4 = "report_reason r x"
  have 4: "prefix (trace x) (trace ?s4)" by (rule report_reason_prefix)
  have 5: "prefix (trace x) (trace (fold (delete_generated root) l ?s4))" for l
    using 4 fold_delete_prefix [of ?s4 root l] by (rule prefix_order.trans)
  have ext: "prefix (trace x) (trace y @ es)" if "prefix (trace x) (trace y)" for y es
    using that by simp
  show ?thesis
    using 4 5
    by (auto simp: on_rejected_def Let_def chdir_def ext split: sum.splits if_splits)
qed

lemma on_rejected_ends: "fst (on_rejected root a r x) \<noteq> Returned ()"
  by (auto simp: on_rejected_def Let_def split: sum.splits if_splits)

lemma from_manifest_ends: "fst (createApp_from_manifest sys root a x) \<noteq> Returned ()"
  by (auto simp: createApp_from_manifest_def Let_def run_eq on_rejected_ends
      split: sum.splits prod.splits bool.splits option.splits)

lemma from_manifest_trace:
  "(\<exists>e. createApp_from_manifest sys root a x = (Thrown e, x)) \<or>
   prefix (trace x @ [WriteFile (join_path root ''package.json'')
                        \<lparr>name = a, version = ''0.1.0'', is_private = True\<rparr>])
     (trace (snd (createApp_from_manifest sys root a x)))"
proof (cases "writeFileSync (join_path root ''package.json'')
                \<lparr>name = a, version = ''0.1.0'', is_private = True\<rparr> x")
  case (Inl e)
  then show ?thesis by (simp add: createApp_from_manifest_def)
next
  case (Inr s7)
  let ?w = "trace x @ [WriteFile (join_path root ''package.json'')
                        \<lparr>name = a, version = ''0.1.0'', is_private = True\<rparr>]"
  from writeFileSync_Inr [OF Inr] have 7: "trace s7 = ?w" by simp
  have "prefix ?w (trace (snd (createApp_from_manifest sys root a x)))"
  proof (cases "chdir root s7")
    case (Inl e)
    with Inr 7 show ?thesis by (simp add: createApp_from_manifest_def)
  next
    case s8: (Inr s8)
    from chdir_Inr [OF s8] 7 have 8: "prefix ?w (trace s8)" by simp
    obtain ok s9 where ch: "checkThatNpmCanReadCwd sys s8 = (ok, s9)"
      by (cases "checkThatNpmCanReadCwd sys s8")
    have "prefix (trace s8) (trace s9)"
      using check_trace [of s8 sys] ch by simp
    with 8 have 9: "prefix ?w (trace s9)" by (rule prefix_order.trans)
    have 10: "prefix ?w (trace (snd (on_rejected root a r s9)))" for r
      using 9 on_rejected_prefix by (rule prefix_order.trans)
    from Inr s8 ch 9 10 show ?thesis
      by (cases ok; cases "global_version sys") (simp_all add: createApp_from_manifest_def run_eq)
  qed
  then show ?thesis ..
qed

lemma createApp_order_events:
  "((\<exists>e\<in>set (events_since s (snd (createApp sys nm s))). touches_target e) \<longrightarrow>
      fst (checkAppName (validate sys) (basename (resolve (cwd s) nm)) s) = Returned ()
    \<and> (\<exists>s2 listing. ensureDirSync (resolve (cwd s) nm) s = Inr s2
          \<and> readdirSync (resolve (cwd s) nm) s2 = Inr listing \<and> conflicts_of listing = []))
   \<and> (Console Stdout ''Aborting installation.'' \<in> set (events_since s (snd (createApp sys nm s))) \<longrightarrow>
        (\<exists>m. WriteFile (join_path (resolve (cwd s) nm) ''package.json'') m
               \<in> set (events_since s (snd (createApp sys nm s)))))
   \<and> (fst (checkAppName (validate sys) (basename (resolve (cwd s) nm)) s) \<noteq> Returned () \<longrightarrow>
        createApp sys nm s = checkAppName (validate sys) (basename (resolve (cwd s) nm)) s
      \<and> fst (createApp sys nm s) = Exited 1)
   \<and> (\<forall>s2. fst (checkAppName (validate sys) (basename (resolve (cwd s) nm)) s) = Returned ()
          \<and> ensureDirSync (resolve (cwd s) nm) s = Inr s2
          \<and> fst (isSafeToCreateProjectIn (resolve (cwd s) nm) nm s2) = Returned False \<longrightarrow>
        createApp sys nm s = (Exited 1, snd (isSafeToCreateProjectIn (resolve (cwd s) nm) nm s2)))
   \<and> fst (createApp sys nm s) \<noteq> Returned ()"
  (is "(?touch \<longrightarrow> ?safe) \<and> (?abort \<longrightarrow> ?written) \<and> (?bad \<longrightarrow> ?rejected) \<and> ?unsafe \<and> ?ends")
proof -
  let ?root = "resolve (cwd s) nm"
  let ?a = "basename ?root"
  let ?c = "checkAppName (validate sys) ?a s"
  let ?new = "events_since s (snd (createApp sys nm s))"
  show ?thesis
  proof (cases "fst ?c = Returned ()")
    case False
    then have eq: "createApp sys nm s = ?c" by (rule createApp_rejected)
    from False checkAppName_cases [of "validate sys" ?a s]
    obtain lines where c: "?c = (Exited 1, s\<lparr>trace := trace s @ map (Console Stderr) lines\<rparr>)"
      by auto
    have new: "?new = map (Console Stderr) lines"
      unfolding eq c by (simp add: events_since_def)
    have "\<not> ?touch" unfolding new by auto
    moreover have "\<not> ?abort" unfolding new by auto
    moreover have ?rejected using eq c by simp
    moreover have ?unsafe using False by simp
    moreover have ?ends using eq c by simp
    ultimately show ?thesis by blast
  next
    case True
    with checkAppName_cases [of "validate sys" ?a s]
    have ca: "?c = (Returned (), s)" by auto
    show ?thesis
    proof (cases "ensureDirSync ?root s")
      case (Inl e)
      have eq: "createApp sys nm s = (Thrown e, s)"
        by (simp add: createApp_def Let_def ca Inl)
      have new: "?new = []" unfolding eq by (simp add: events_since_def)
      have "\<not> ?touch" unfolding new by simp
      moreover have "\<not> ?abort" unfolding new by simp
      moreover have ?unsafe using Inl by simp
      moreover have ?ends using eq by simp
      ultimately show ?thesis using True by blast
    next
      case (Inr s2)
      from ensureDirSync_trace [OF Inr] obtain ps where t2: "trace s2 = trace s @ map MkDir ps"
        by blast
      show ?thesis
      proof (cases "readdirSync ?root s2")
        case e: (Inl e)
        have eq: "createApp sys nm s = (Thrown e, s2)"
          by (simp add: createApp_def Let_def ca Inr scan_throws [OF e])
        have new: "?new = map MkDir ps" unfolding eq by (simp add: events_since_def t2)
        have "\<not> ?touch" unfolding new by auto
        moreover have "\<not> ?abort" unfolding new by auto
        moreover have ?unsafe using Inr by (simp add: scan_throws [OF e])
        moreover have ?ends using eq by simp
        ultimately show ?thesis using True by blast
      next
        case l: (Inr listing)
        show ?thesis
        proof (cases "conflicts_of listing = []")
          case False
          let ?lines = "[''The directory '' @ nm @ '' contains files that could conflict:'', []] @
             map (conflict_line ?root s2) (conflicts_of listing) @
             [[], ''Either try using a new directory name, or remove the files listed above.'']"
          note sc = scan_conflicts [OF l False, of nm]
          have eq: "createApp sys nm s = (Exited 1, snd (isSafeToCreateProjectIn ?root nm s2))"
            by (simp add: createApp_def Let_def ca Inr sc)
          have new: "?new = map MkDir ps @ map (Console Stdout) ?lines"
            unfolding eq sc by (simp add: events_since_def t2 comp_def)
          have "\<not> ?touch" unfolding new by auto
          moreover have "\<not> ?abort" unfolding new by (auto simp: conflict_line_def split: if_splits)
          moreover have ?unsafe using Inr eq by simp
          moreover have ?ends using eq by simp
          ultimately show ?thesis using True by blast
        next
          case none: True
          let ?s3 = "fold (remove_if_error_log ?root) listing s2"
          let ?s6 = "console_log []
             (console_log (''Creating a new app in '' @ path_string ?root @ ''.'') (console_log [] ?s3))"
          let ?w = "WriteFile (join_path ?root ''package.json'')
                      \<lparr>name = ?a, version = ''0.1.0'', is_private = True\<rparr>"
          note sc = scan_clean [OF l none, of nm]
          have eq: "createApp sys nm s = createApp_from_manifest sys ?root ?a ?s6"
            by (simp add: createApp_def Let_def ca Inr sc)
          have t6: "trace ?s6 = trace s @ map MkDir ps @
              map (\<lambda>f. Remove (?root @ [f])) (filter isErrorLog listing) @
              [Console Stdout [],
               Console Stdout (''Creating a new app in '' @ path_string ?root @ ''.''),
               Console Stdout []]"
            by (simp add: fold_remove_trace t2)
          have ?safe using True Inr l none by blast
          moreover have ?unsafe using Inr sc by simp
          moreover have ?ends unfolding eq by (rule from_manifest_ends)
          moreover have "?abort \<longrightarrow> ?written"
            using from_manifest_trace [of sys ?root ?a ?s6]
          proof
            assume "\<exists>e. createApp_from_manifest sys ?root ?a ?s6 = (Thrown e, ?s6)"
            then obtain e where th: "createApp sys nm s = (Thrown e, ?s6)"
              unfolding eq by blast
            have "?new = map MkDir ps @
              map (\<lambda>f. Remove (?root @ [f])) (filter isErrorLog listing) @
              [Console Stdout [],
               Console Stdout (''Creating a new app in '' @ path_string ?root @ ''.''),
               Console Stdout []]"
              unfolding th using t6 by (simp add: events_since_def)
            then have "\<not> ?abort" by auto
            then show ?thesis by simp
          next
            assume "prefix (trace ?s6 @ [?w]) (trace (snd (createApp_from_manifest sys ?root ?a ?s6)))"
            then obtain ys where "trace (snd (createApp sys nm s)) = (trace ?s6 @ [?w]) @ ys"
              unfolding eq by (auto simp: prefix_def)
            then have "?w \<in> set ?new"
              unfolding t6 by (simp add: events_since_def)
            then show ?thesis by blast
          qed
          ultimately show ?thesis using True by blast
        qed
      qed
    qed
  qed
qed

subsection \<open>After a safe scan: the manifest, the working directory, the end\<close>

lemma map_of_snoc_Some: "map_of fs q = Some k \<Longrightarrow> map_of (fs @ [e]) q = Some k"
  by (simp add: map_of_append)

lemma mkdirs_dirs:
  "mkdirs qs s = Inr s2 \<Longrightarrow>
     (\<forall>q\<in>set qs. is_dir (files s2) q) \<and> (\<forall>q. is_dir (files s) q \<longrightarrow> is_dir (files s2) q)"
proof (induction qs arbitrary: s)
  case Nil
  then show ?case by simp
next
  case (Cons q qs)
  show ?case
  proof (cases "map_of (files s) q")
    case None
    let ?s1 = "emit (MkDir q) (s\<lparr>files := files s @ [(q, Directory)]\<rparr>)"
    from Cons.prems None have "mkdirs qs ?s1 = Inr s2" by simp
    from Cons.IH [OF this]
    have later: "\<forall>q'\<in>set qs. is_dir (files s2) q'"
      and keep: "\<forall>q'. is_dir (files ?s1) q' \<longrightarrow> is_dir (files s2) q'"
      by blast+
    have made: "is_dir (files ?s1) q"
      using None by (simp add: is_dir_def map_of_append map_add_def)
    have old: "is_dir (files ?s1) q'" if "is_dir (files s) q'" for q'
      using that by (simp add: is_dir_def map_of_snoc_Some)
    from later keep made old show ?thesis by auto
  next
    case (Some k)
    with Cons.prems have k: "k = Directory" and rest: "mkdirs qs s = Inr s2"
      by (cases k; simp)+
    from Cons.IH [OF rest]
    have later: "\<forall>q'\<in>set qs. is_dir (files s2) q'"
      and keep: "\<forall>q'. is_dir (files s) q' \<longrightarrow> is_dir (files s2) q'"
      by blast+
    from Some k have "is_dir (files s) q" by (simp add: is_dir_def)
    with later keep show ?thesis by auto
  qed
qed

lemma ensureDirSync_dirs:
  assumes "ensureDirSync p s = Inr s2"
  shows "is_dir (files s2) p" and "is_dir (files s2) (parent p)"
proof -
  from assms have all: "\<forall>q\<in>set (prefixes p). is_dir (files s2) q"
    unfolding ensureDirSync_def by (blast dest: mkdirs_dirs)
  from all show "is_dir (files s2) p" by simp
  have "prefix (butlast p) p" by (rule prefixeq_butlast)
  with all show "is_dir (files s2) (parent p)" by (simp add: parent_def)
qed

lemma check_frame:
  "files (snd (checkThatNpmCanReadCwd sys x)) = files x"
  "cwd (snd (checkThatNpmCanReadCwd sys x)) = cwd x"
  by (auto simp: checkThatNpmCanReadCwd_def Let_def split: option.splits)

lemma map_of_child_listed:
  assumes "map_of fs (root @ [f]) = Some k"
  shows "f \<in> set (children fs root)"
proof -
  from assms have "(root @ [f], k) \<in> set fs" by (rule map_of_SomeD)
  then have "last (fst (root @ [f], k)) \<in> (\<lambda>e. last (fst e)) `
      set (filter (\<lambda>e. fst e \<noteq> [] \<and> butlast (fst e) = root) fs)"
    by (intro imageI) simp
  then have "last (fst (root @ [f], k)) \<in> set (children fs root)"
    by (simp add: children_def)
  then show ?thesis by simp
qed

lemma package_json_conflict: "''package.json'' \<in> set listing \<Longrightarrow> conflicts_of listing \<noteq> []"
proof -
  assume "''package.json'' \<in> set listing"
  then have "''package.json'' \<in> set (conflicts_of listing)"
    by (simp add: in_conflicts_of validFiles_def isIml_def isErrorLog_def
        errorLogFilePatterns_def suffix_to_prefix)
  then show ?thesis by auto
qed

lemma map_of_after_removal_parent:
  "map_of (files (fold (remove_if_error_log root) l s)) (parent root) = map_of (files s) (parent root)"
  unfolding fold_remove_files parent_def
  using map_of_filter_key [of "\<lambda>q. \<not> (\<exists>f\<in>set l. isErrorLog f \<and> prefix (root @ [f]) q)"
      "files s" "butlast root"]
  by (simp add: not_prefix_child_parent)

lemma scan_after_ensureDir:
  assumes "ensureDirSync root s = Inr s2"
  shows "\<exists>safe. fst (isSafeToCreateProjectIn root nm s2) = Returned safe"
proof -
  from ensureDirSync_dirs(1) [OF assms]
  have r: "readdirSync root s2 = Inr (children (files s2) root)"
    by (simp add: readdirSync_Inr)
  show ?thesis
    by (cases "conflicts_of (children (files s2) root) = []")
      (auto simp: scan_clean [OF r] scan_conflicts [OF r])
qed

lemma createApp_safe_stages:
  assumes ca: "fst (checkAppName (validate sys) (basename root) s) = Returned ()"
    and root: "root = resolve (cwd s) nm"
    and ed: "ensureDirSync root s = Inr s2"
    and sc: "fst (isSafeToCreateProjectIn root nm s2) = Returned True"
    and s6: "s6 = console_log [] (console_log (''Creating a new app in '' @ path_string root @ ''.'')
                (console_log [] (snd (isSafeToCreateProjectIn root nm s2))))"
  shows "\<exists>s7 s8.
      writeFileSync (join_path root ''package.json'')
        \<lparr>name = basename root, version = ''0.1.0'', is_private = True\<rparr> s6 = Inr s7
    \<and> chdir root s7 = Inr s8
    \<and> (\<not> fst (checkThatNpmCanReadCwd sys s8) \<longrightarrow>
         createApp sys nm s = (Exited 1, snd (checkThatNpmCanReadCwd sys s8)))
    \<and> (fst (checkThatNpmCanReadCwd sys s8) \<and> global_version sys = None \<longrightarrow>
         createApp sys nm s =
           (Thrown (ReferenceError ''version''), snd (checkThatNpmCanReadCwd sys s8)))
    \<and> (fst (checkThatNpmCanReadCwd sys s8) \<and> global_version sys \<noteq> None \<longrightarrow>
         createApp sys nm s =
           on_rejected root (basename root) (Error TypeError) (snd (checkThatNpmCanReadCwd sys s8))
       \<and> fst (createApp sys nm s) = Exited 1)"
proof -
  let ?p = "join_path root ''package.json''"
  let ?m = "\<lparr>name = basename root, version = ''0.1.0'', is_private = True\<rparr>"
  from ca checkAppName_cases [of "validate sys" "basename root" s]
  have ca': "checkAppName (validate sys) (basename root) s = (Returned (), s)" by auto
  from sc obtain listing where r: "readdirSync root s2 = Inr listing"
    and none: "conflicts_of listing = []"
    by (auto simp: scan_true_iff)
  let ?s3 = "fold (remove_if_error_log root) listing s2"
  have scan: "isSafeToCreateProjectIn root nm s2 = (Returned True, ?s3)"
    by (rule scan_clean [OF r none])
  from r have dir2: "is_dir (files s2) root" and l: "listing = children (files s2) root"
    by (simp_all add: readdirSync_Inr)
  have f6: "files s6 = files ?s3" and c6: "cwd s6 = cwd ?s3"
    by (simp_all add: s6 scan)
  have dir6: "is_dir (files s6) root"
    using dir2 by (simp add: f6 is_dir_def is_dir_after_removal)
  have par6: "is_dir (files s6) (parent root)"
    using ensureDirSync_dirs(2) [OF ed] by (simp add: f6 is_dir_def map_of_after_removal_parent)
  have absent2: "map_of (files s2) ?p = None"
  proof (rule ccontr)
    assume "map_of (files s2) ?p \<noteq> None"
    then obtain k where "map_of (files s2) (root @ [''package.json'']) = Some k"
      by (auto simp: join_path_def)
    then have "''package.json'' \<in> set listing"
      unfolding l by (rule map_of_child_listed)
    with none show False by (simp add: package_json_conflict)
  qed
  have absent6: "map_of (files s6) ?p = None"
    unfolding f6 fold_remove_files
    using absent2
      map_of_filter_key [of "\<lambda>q. \<not> (\<exists>f\<in>set listing. isErrorLog f \<and> prefix (root @ [f]) q)"
        "files s2" ?p]
    by simp
  define s7 where "s7 = emit (WriteFile ?p ?m) (s6\<lparr>files := files s6 @ [(?p, File)]\<rparr>)"
  define s8 where "s8 = emit (ChDir root) (s7\<lparr>cwd := root\<rparr>)"
  have w: "writeFileSync ?p ?m s6 = Inr s7"
    using absent6 dir6 by (simp add: writeFileSync_def s7_def parent_def join_path_def)
  have dir7: "is_dir (files s7) root" and par7: "is_dir (files s7) (parent root)"
    using dir6 par6 by (simp_all add: s7_def is_dir_def map_of_snoc_Some)
  have ch: "chdir root s7 = Inr s8"
    using dir7 by (simp add: chdir_def s8_def)
  let ?s9 = "snd (checkThatNpmCanReadCwd sys s8)"
  have dir9: "is_dir (files ?s9) root" and par9: "is_dir (files ?s9) (parent root)"
    using dir7 par7 by (simp_all add: check_frame s8_def)
  from dir9 have r9: "readdirSync root ?s9 = Inr (children (files ?s9) root)"
    by (simp add: readdirSync_Inr)
  have exits: "fst (on_rejected root (basename root) (Error TypeError) ?s9) = Exited 1"
    by (rule on_rejected_effect(1) [OF r9 par9])
  have eq: "createApp sys nm s = createApp_from_manifest sys root (basename root) s6"
    by (simp add: createApp_def Let_def root [symmetric] ca' ed scan s6)
  obtain ok s9 where c: "checkThatNpmCanReadCwd sys s8 = (ok, s9)"
    by (cases "checkThatNpmCanReadCwd sys s8")
  have tail: "createApp_from_manifest sys root (basename root) s6 =
      (if \<not> ok then (Exited 1, s9)
       else case global_version sys of
              None \<Rightarrow> (Thrown (ReferenceError ''version''), s9)
            | Some v \<Rightarrow> on_rejected root (basename root) (Error TypeError) s9)"
    by (cases ok) (simp_all add: createApp_from_manifest_def w ch c run_eq split: option.splits)
  have "(\<not> fst (checkThatNpmCanReadCwd sys s8) \<longrightarrow>
         createApp sys nm s = (Exited 1, snd (checkThatNpmCanReadCwd sys s8)))
    \<and> (fst (checkThatNpmCanReadCwd sys s8) \<and> global_version sys = None \<longrightarrow>
         createApp sys nm s =
           (Thrown (ReferenceError ''version''), snd (checkThatNpmCanReadCwd sys s8)))
    \<and> (fst (checkThatNpmCanReadCwd sys s8) \<and> global_version sys \<noteq> None \<longrightarrow>
         createApp sys nm s =
           on_rejected root (basename root) (Error TypeError) (snd (checkThatNpmCanReadCwd sys s8))
       \<and> fst (createApp sys nm s) = Exited 1)"
    using exits unfolding eq tail c by (auto split: option.splits)
  with w ch show ?thesis by blast
qed

lemma chdir_cwd: "chdir p x = Inr y \<Longrightarrow> cwd y = p"
  by (auto simp: chdir_def split: if_splits)

lemma check_moved: "cwd x = tmp_app \<Longrightarrow> \<not> fst (checkThatNpmCanReadCwd system_moved x)"
  by (simp add: checkThatNpmCanReadCwd_def system_moved_def cwd_prefix_def path_string_def
      tmp_app_def Let_def)

lemma check_unix: "cwd x = tmp_app \<Longrightarrow> fst (checkThatNpmCanReadCwd system_unix x)"
  by (simp add: checkThatNpmCanReadCwd_def system_unix_def cwd_prefix_def path_string_def
      tmp_app_def Let_def)

lemma check_global: "cwd x = tmp_app \<Longrightarrow> fst (checkThatNpmCanReadCwd system_global x)"
  by (simp add: checkThatNpmCanReadCwd_def system_global_def cwd_prefix_def path_string_def
      tmp_app_def Let_def)

text \<open>
  C2. In every run of \<open>createApp\<close>: if any event changes what is inside the target
  directory (a file is written, a path is removed, the package manager is started to
  install), then the name validation has returned normally and the scan has found no
  conflict in the directory as \<^verbatim>\<open>ensureDirSync\<close> left it. If the handler of \<open>run\<close>
  has been entered, the manifest has been written before. No run of \<open>createApp\<close>
  returns normally, and every step ends the run where it fails:
  \<^item> if the name validation does not return normally, \<open>createApp\<close> ends with its exit,
    status 1, and nothing further;
  \<^item> if \<^verbatim>\<open>ensureDirSync\<close> throws, \<open>createApp\<close> ends with that error in the world as it
    was;
  \<^item> after \<^verbatim>\<open>ensureDirSync\<close> the scan returns true or false, it does not throw; if it
    returns false, \<open>createApp\<close> ends with status 1 in the world the scan left;
  \<^item> if it returns true, the write of the manifest and the change into the target
    directory succeed, and then: if the check of the working directory fails,
    \<open>createApp\<close> ends with status 1 in the world the check left, without entering
    \<open>run\<close>; if it passes and \<^verbatim>\<open>version\<close> is unbound, \<open>createApp\<close> ends with the
    \<^verbatim>\<open>ReferenceError\<close>; if it passes and \<^verbatim>\<open>version\<close> is bound, \<open>createApp\<close> is the
    rollback handler run in that world, and it exits with status 1.
\<close>

theorem createApp_order:
  "((\<exists>e\<in>set (events_since s (snd (createApp sys nm s))). touches_target e) \<longrightarrow>
      fst (checkAppName (validate sys) (basename (resolve (cwd s) nm)) s) = Returned ()
    \<and> (\<exists>s2 listing. ensureDirSync (resolve (cwd s) nm) s = Inr s2
          \<and> readdirSync (resolve (cwd s) nm) s2 = Inr listing \<and> conflicts_of listing = []))
   \<and> (Console Stdout ''Aborting installation.'' \<in> set (events_since s (snd (createApp sys nm s))) \<longrightarrow>
        (\<exists>m. WriteFile (join_path (resolve (cwd s) nm) ''package.json'') m
               \<in> set (events_since s (snd (createApp sys nm s)))))
   \<and> (fst (checkAppName (validate sys) (basename (resolve (cwd s) nm)) s) \<noteq> Returned () \<longrightarrow>
        createApp sys nm s = checkAppName (validate sys) (basename (resolve (cwd s) nm)) s
      \<and> fst (createApp sys nm s) = Exited 1)
   \<and> (\<forall>s2. fst (checkAppName (validate sys) (basename (resolve (cwd s) nm)) s) = Returned ()
          \<and> ensureDirSync (resolve (cwd s) nm) s = Inr s2
          \<and> fst (isSafeToCreateProjectIn (resolve (cwd s) nm) nm s2) = Returned False \<longrightarrow>
        createApp sys nm s = (Exited 1, snd (isSafeToCreateProjectIn (resolve (cwd s) nm) nm s2)))
   \<and> fst (createApp sys nm s) \<noteq> Returned ()
   \<and> (\<forall>e. fst (checkAppName (validate sys) (basename (resolve (cwd s) nm)) s) = Returned ()
          \<and> ensureDirSync (resolve (cwd s) nm) s = Inl e \<longrightarrow>
        createApp sys nm s = (Thrown e, s))
   \<and> (\<forall>s2. ensureDirSync (resolve (cwd s) nm) s = Inr s2 \<longrightarrow>
        (\<exists>safe. fst (isSafeToCreateProjectIn (resolve (cwd s) nm) nm s2) = Returned safe))
   \<and> (\<forall>s2. fst (checkAppName (validate sys) (basename (resolve (cwd s) nm)) s) = Returned ()
          \<and> ensureDirSync (resolve (cwd s) nm) s = Inr s2
          \<and> fst (isSafeToCreateProjectIn (resolve (cwd s) nm) nm s2) = Returned True \<longrightarrow>
        (\<exists>s7 s8.
            writeFileSync (join_path (resolve (cwd s) nm) ''package.json'')
              \<lparr>name = basename (resolve (cwd s) nm), version = ''0.1.0'', is_private = True\<rparr>
              (console_log []
                (console_log (''Creating a new app in '' @ path_string (resolve (cwd s) nm) @ ''.'')
                  (console_log [] (snd (isSafeToCreateProjectIn (resolve (cwd s) nm) nm s2)))))
              = Inr s7
          \<and> chdir (resolve (cwd s) nm) s7 = Inr s8
          \<and> (\<not> fst (checkThatNpmCanReadCwd sys s8) \<longrightarrow>
               createApp sys nm s = (Exited 1, snd (checkThatNpmCanReadCwd sys s8)))
          \<and> (fst (checkThatNpmCanReadCwd sys s8) \<and> global_version sys = None \<longrightarrow>
               createApp sys nm s =
                 (Thrown (ReferenceError ''version''), snd (checkThatNpmCanReadCwd sys s8)))
          \<and> (fst (checkThatNpmCanReadCwd sys s8) \<and> global_version sys \<noteq> None \<longrightarrow>
               createApp sys nm s =
                 on_rejected (resolve (cwd s) nm) (basename (resolve (cwd s) nm)) (Error TypeError)
                   (snd (checkThatNpmCanReadCwd sys s8))
             \<and> fst (createApp sys nm s) = Exited 1)))"
proof -
  let ?root = "resolve (cwd s) nm"
  let ?c = "checkAppName (validate sys) (basename ?root) s"
  note events = createApp_order_events [of s sys nm]
  have mkdir_fails: "createApp sys nm s = (Thrown e, s)"
    if "fst ?c = Returned ()" and "ensureDirSync ?root s = Inl e" for e
  proof -
    from that(1) checkAppName_cases [of "validate sys" "basename ?root" s]
    have "?c = (Returned (), s)" by auto
    with that(2) show ?thesis by (simp add: createApp_def Let_def)
  qed
  have scans: "\<exists>safe. fst (isSafeToCreateProjectIn ?root nm s2) = Returned safe"
    if "ensureDirSync ?root s = Inr s2" for s2
    using that by (rule scan_after_ensureDir)
  note stages = createApp_safe_stages [where root = ?root and s = s and nm = nm and sys = sys, OF _ refl _ _ refl]
  from events mkdir_fails scans stages show ?thesis
    by blast
qed

theorem createApp_order_witness:
  "(\<exists>e\<in>set (events_since world_git (snd (createApp system_unix ''app'' world_git))). touches_target e)
   \<and> fst (checkAppName (validate system_unix) (basename (resolve (cwd world_git) ''app'')) world_git)
       = Returned ()
   \<and> (\<exists>s2 listing. ensureDirSync (resolve (cwd world_git) ''app'') world_git = Inr s2
          \<and> readdirSync (resolve (cwd world_git) ''app'') s2 = Inr listing
          \<and> conflicts_of listing = [])
   \<and> Console Stdout ''Aborting installation.''
        \<in> set (events_since world_git (snd (createApp system_global ''app'' world_git)))
   \<and> (\<exists>m. WriteFile (join_path (resolve (cwd world_git) ''app'') ''package.json'') m
          \<in> set (events_since world_git (snd (createApp system_global ''app'' world_git))))
   \<and> fst (checkAppName (validate system_unix) (basename (resolve (cwd world_git) ''x/express''))
          world_git) \<noteq> Returned ()
   \<and> fst (createApp system_unix ''x/express'' world_git) = Exited 1
   \<and> fst (isSafeToCreateProjectIn (resolve (cwd world_notes) ''app'') ''app'' world_notes) = Returned False
   \<and> createApp system_unix ''app'' world_notes =
       (Exited 1, snd (isSafeToCreateProjectIn (resolve (cwd world_notes) ''app'') ''app'' world_notes))
   \<and> ensureDirSync (resolve (cwd world_blocked) ''app'') world_blocked = Inl (EEXIST tmp_app)
   \<and> createApp system_unix ''app'' world_blocked = (Thrown (EEXIST tmp_app), world_blocked)
   \<and> fst (isSafeToCreateProjectIn (resolve (cwd world_git) ''app'') ''app'' world_git) = Returned True
   \<and> (\<exists>s8. \<not> fst (checkThatNpmCanReadCwd system_moved s8)
          \<and> createApp system_moved ''app'' world_git =
              (Exited 1, snd (checkThatNpmCanReadCwd system_moved s8)))
   \<and> fst (createApp system_unix ''app'' world_git) = Thrown (ReferenceError ''version'')
   \<and> fst (createApp system_global ''app'' world_git) = Exited 1"
proof -
  have touched: "\<exists>e\<in>set (events_since world_git (snd (createApp system_unix ''app'' world_git))).
      touches_target e"
    by code_simp
  from createApp_order [where s = world_git and sys = system_unix and nm = "''app''"] touched
  have 1: "fst (checkAppName (validate system_unix) (basename (resolve (cwd world_git) ''app'')) world_git)
       = Returned ()
   \<and> (\<exists>s2 listing. ensureDirSync (resolve (cwd world_git) ''app'') world_git = Inr s2
          \<and> readdirSync (resolve (cwd world_git) ''app'') s2 = Inr listing
          \<and> conflicts_of listing = [])"
    by blast
  have aborted: "Console Stdout ''Aborting installation.''
        \<in> set (events_since world_git (snd (createApp system_global ''app'' world_git)))"
    by code_simp
  from createApp_order [where s = world_git and sys = system_global and nm = "''app''"] aborted
  have 2: "\<exists>m. WriteFile (join_path (resolve (cwd world_git) ''app'') ''package.json'') m
          \<in> set (events_since world_git (snd (createApp system_global ''app'' world_git)))"
    by blast
  have bad: "fst (checkAppName (validate system_unix) (basename (resolve (cwd world_git) ''x/express''))
          world_git) \<noteq> Returned ()"
    by code_simp
  from createApp_order [where s = world_git and sys = system_unix and nm = "''x/express''"] bad
  have 3: "fst (createApp system_unix ''x/express'' world_git) = Exited 1"
    by blast
  have ok: "fst (checkAppName (validate system_unix) (basename (resolve (cwd world_notes) ''app''))
      world_notes) = Returned ()"
    by code_simp
  have made: "ensureDirSync (resolve (cwd world_notes) ''app'') world_notes = Inr world_notes"
    by code_simp
  have unsafe: "fst (isSafeToCreateProjectIn (resolve (cwd world_notes) ''app'') ''app'' world_notes)
      = Returned False"
    by code_simp
  from createApp_order [where s = world_notes and sys = system_unix and nm = "''app''"] ok made unsafe
  have 4: "createApp system_unix ''app'' world_notes =
       (Exited 1, snd (isSafeToCreateProjectIn (resolve (cwd world_notes) ''app'') ''app'' world_notes))"
    by blast
  have ok_blocked: "fst (checkAppName (validate system_unix)
      (basename (resolve (cwd world_blocked) ''app'')) world_blocked) = Returned ()"
    by code_simp
  have blocked: "ensureDirSync (resolve (cwd world_blocked) ''app'') world_blocked = Inl (EEXIST tmp_app)"
    by code_simp
  from createApp_order [where s = world_blocked and sys = system_unix and nm = "''app''"]
    ok_blocked blocked
  have 5: "createApp system_unix ''app'' world_blocked = (Thrown (EEXIST tmp_app), world_blocked)"
    by blast
  have root: "resolve (cwd world_git) ''app'' = tmp_app"
    by code_simp
  have ok_git: "fst (checkAppName v (basename (resolve (cwd world_git) ''app'')) world_git) = Returned ()"
    if "v = (\<lambda>n. \<lparr>validForNewPackages = True, errors = None, warnings = None\<rparr>)" for v
    unfolding that by code_simp
  have made_git: "ensureDirSync (resolve (cwd world_git) ''app'') world_git = Inr world_git"
    by code_simp
  have safe: "fst (isSafeToCreateProjectIn (resolve (cwd world_git) ''app'') ''app'' world_git)
      = Returned True"
    by code_simp
  have ok_moved: "fst (checkAppName (validate system_moved)
      (basename (resolve (cwd world_git) ''app'')) world_git) = Returned ()"
    by (rule ok_git) (simp add: system_moved_def)
  have ok_global: "fst (checkAppName (validate system_global)
      (basename (resolve (cwd world_git) ''app'')) world_git) = Returned ()"
    by (rule ok_git) (simp add: system_global_def)
  have ok_unix: "fst (checkAppName (validate system_unix)
      (basename (resolve (cwd world_git) ''app'')) world_git) = Returned ()"
    by (rule ok_git) (simp add: system_unix_def)
  from createApp_order [where s = world_git and sys = system_moved and nm = "''app''"]
    ok_moved made_git safe
  obtain s7 s8 where "chdir (resolve (cwd world_git) ''app'') s7 = Inr s8"
    and moved: "\<not> fst (checkThatNpmCanReadCwd system_moved s8) \<longrightarrow>
      createApp system_moved ''app'' world_git = (Exited 1, snd (checkThatNpmCanReadCwd system_moved s8))"
    by blast
  then have "cwd s8 = tmp_app" by (simp add: root chdir_cwd)
  then have "\<not> fst (checkThatNpmCanReadCwd system_moved s8)" by (rule check_moved)
  with moved have 6: "\<exists>s8. \<not> fst (checkThatNpmCanReadCwd system_moved s8)
          \<and> createApp system_moved ''app'' world_git =
              (Exited 1, snd (checkThatNpmCanReadCwd system_moved s8))"
    by blast
  from createApp_order [where s = world_git and sys = system_unix and nm = "''app''"]
    ok_unix made_git safe
  obtain t7 t8 where "chdir (resolve (cwd world_git) ''app'') t7 = Inr t8"
    and unbound: "fst (checkThatNpmCanReadCwd system_unix t8) \<and> global_version system_unix = None \<longrightarrow>
      createApp system_unix ''app'' world_git =
        (Thrown (ReferenceError ''version''), snd (checkThatNpmCanReadCwd system_unix t8))"
    by blast
  then have "cwd t8 = tmp_app" by (simp add: root chdir_cwd)
  then have "fst (checkThatNpmCanReadCwd system_unix t8)" by (rule check_unix)
  with unbound have 7: "fst (createApp system_unix ''app'' world_git) = Thrown (ReferenceError ''version'')"
    by (simp add: system_unix_def)
  from createApp_order [where s = world_git and sys = system_global and nm = "''app''"]
    ok_global made_git safe
  obtain u7 u8 where "chdir (resolve (cwd world_git) ''app'') u7 = Inr u8"
    and bound: "fst (checkThatNpmCanReadCwd system_global u8) \<and> global_version system_global \<noteq> None \<longrightarrow>
      fst (createApp system_global ''app'' world_git) = Exited 1"
    by blast
  then have "cwd u8 = tmp_app" by (simp add: root chdir_cwd)
  then have "fst (checkThatNpmCanReadCwd system_global u8)" by (rule check_global)
  with bound have 8: "fst (createApp system_global ''app'' world_git) = Exited 1"
    by (simp add: system_global_def)
  from touched 1 aborted 2 bad 3 unsafe 4 blocked 5 safe 6 7 8 show ?thesis by blast
qed

end
